theory Spec2Isabelle
  imports Complex_Main "HOL-Library.List_Lexorder" "HOL-Library.Char_ord" "HOL-Library.Multiset"
begin

section \<open>Campus energy pipeline: ingestion and aggregation (lab_5.py)\<close>

text \<open>
  The program is a thin layer over the pandas library. The embedding keeps the program's
  own control flow (the loop over files, the repair of one-column files, the validation
  gate, the tagging, the final check for an empty list of frames) and gives each pandas
  call it makes a HOL function with the behaviour of that call under the arguments the
  program passes. A missing value (NaN, NaT, None) is \<open>None\<close>. A present \<open>kwh\<close>
  value is a real number (a float64 is one); how the library adds such values up is not
  fixed by the model, see \<open>library\<close> below.
\<close>

subsection \<open>String operations of Python used by the program\<close>

text \<open>\<open>s.split(sep)\<close> for a one-character separator: never an empty list.\<close>

fun str_split :: "char \<Rightarrow> string \<Rightarrow> string list" where
  "str_split sep [] = [[]]"
| "str_split sep (c # cs) =
     (if c = sep then [] # str_split sep cs
      else (case str_split sep cs of
              [] \<Rightarrow> [[c]]
            | p # ps \<Rightarrow> (c # p) # ps))"

fun startswith :: "string \<Rightarrow> string \<Rightarrow> bool" where
  "startswith [] s = True"
| "startswith (p # ps) [] = False"
| "startswith (p # ps) (c # cs) = (p = c \<and> startswith ps cs)"

text \<open>\<open>p in s\<close> on strings: \<open>p\<close> occurs in \<open>s\<close> as a contiguous substring.\<close>

fun str_contains :: "string \<Rightarrow> string \<Rightarrow> bool" where
  "str_contains p [] = (p = [])"
| "str_contains p (c # cs) = (startswith p (c # cs) \<or> str_contains p cs)"

text \<open>\<open>s.strip(q)\<close> for a one-character set: drops every leading and trailing \<open>q\<close>.\<close>

definition str_strip :: "char \<Rightarrow> string \<Rightarrow> string" where
  "str_strip q s = rev (dropWhile (\<lambda>c. c = q) (rev (dropWhile (\<lambda>c. c = q) s)))"

text \<open>\<open>s.split(sep, 1)\<close>: at most one split, at the first separator.\<close>

definition split_n1 :: "char \<Rightarrow> string \<Rightarrow> string list" where
  "split_n1 sep s =
     (if sep \<in> set s
      then [takeWhile (\<lambda>c. c \<noteq> sep) s, tl (dropWhile (\<lambda>c. c \<noteq> sep) s)]
      else [s])"

subsection \<open>Frames as read from a file\<close>

text \<open>
  A cell of a parsed file is its text, or \<open>None\<close> for an empty field (pandas' NaN).
  A frame is the list of column names and the rows; \<open>read_csv\<close> pads a short row with
  NaN, which \<open>cell_at\<close> does for a position past the end of a row.
\<close>

type_synonym cell = "string option"

record frame =
  columns :: "string list"
  rows :: "cell list list"

definition cell_at :: "nat \<Rightarrow> cell list \<Rightarrow> cell" where
  "cell_at i row = (if i < length row then row ! i else None)"

text \<open>\<open>df[c]\<close> read row by row: the cell of the first column named \<open>c\<close>.\<close>

definition column_cell :: "string \<Rightarrow> frame \<Rightarrow> cell list \<Rightarrow> cell" where
  "column_cell c df row = cell_at (length (takeWhile (\<lambda>x. x \<noteq> c) (columns df))) row"

text \<open>
  What \<open>pd.read_csv(csv_path, on_bad_lines="skip")\<close> did for one file found by the
  glob: a frame, \<open>FileNotFoundError\<close>, or any other exception with its message. The file
  system is outside the program, so the outcome is part of the input, with the three
  renderings of the path the program uses (\<open>str(csv_path)\<close>, \<open>csv_path.name\<close>,
  \<open>csv_path.stem\<close>).
\<close>

datatype read_result = Frame frame | FileNotFoundError | OtherException string

record csv_path =
  path_str :: string
  name :: string
  stem :: string
  read_csv :: read_result

text \<open>A row of the combined table: the four columns the pipeline reads.\<close>

record 't reading =
  timestamp :: 't
  kwh :: "real option"
  building :: string
  month :: string

datatype error = RuntimeError string | ValueError string

subsection \<open>Ingestion: \<open>load_all_csvs\<close>\<close>

text \<open>Lines 19-21: the tags read from the file name.\<close>

definition name_tags :: "string \<Rightarrow> string \<times> string" where
  "name_tags st =
     (let name_parts = str_split CHR ''_'' st;
          bld = (if length name_parts > 0 then hd name_parts else ''Unknown'');
          mon = (if length name_parts > 1 then last name_parts else ''Unknown'')
      in (bld, mon))"

text \<open>\<open>astype(str)\<close> on a text column: NaN becomes the text \<open>nan\<close>.\<close>

definition astype_str :: "cell \<Rightarrow> string" where
  "astype_str c = (case c of None \<Rightarrow> ''nan'' | Some s \<Rightarrow> s)"

text \<open>
  \<open>.str.split(",", n=1, expand=True)\<close>: a table as wide as the longest list of parts
  (no column at all when there is no row), shorter rows padded with None.
\<close>

definition expand :: "string list list \<Rightarrow> nat \<times> cell list list" where
  "expand parts =
     (let w = fold max (map length parts) 0
      in (w, map (\<lambda>p. map Some p @ replicate (w - length p) None) parts))"

text \<open>Line 28 and line 30: when the repair of a one-column frame is attempted.\<close>

definition repair_triggers :: "frame \<Rightarrow> bool" where
  "repair_triggers df =
     ((''timestamp'' \<notin> set (columns df) \<or> ''kwh'' \<notin> set (columns df))
      \<and> length (columns df) = 1
      \<and> str_contains ''timestamp'' (hd (columns df))
      \<and> str_contains ''kwh'' (hd (columns df)))"

text \<open>
  Lines 28-35. The assignment \<open>df[["timestamp", "kwh"]] = ...\<close> of line 34 needs a
  table of exactly two columns and raises ValueError otherwise (\<open>Inl\<close>, with the
  exception's message).
\<close>

definition repair :: "frame \<Rightarrow> string + frame" where
  "repair df =
     (if repair_triggers df then
        (let ts_kwh = map (\<lambda>row. str_strip (CHR 0x22) (astype_str (cell_at 0 row))) (rows df);
             (w, tbl) = expand (map (split_n1 CHR '','') ts_kwh)
         in if w = 2 then Inr \<lparr>columns = [''timestamp'', ''kwh''], rows = tbl\<rparr>
            else Inl ''Columns must be same length as key'')
      else Inr df)"

text \<open>
  Line 39, \<open>pd.to_numeric(..., errors="coerce")\<close>. The library's reading of a text as
  a number is the parameter \<open>num\<close> (None: the text is no number).
\<close>

definition to_numeric :: "(string \<Rightarrow> real option) \<Rightarrow> cell \<Rightarrow> real option" where
  "to_numeric num c = (case c of None \<Rightarrow> None | Some s \<Rightarrow> num s)"

text \<open>Line 42: the validation gate.\<close>

definition invalid_columns :: "frame \<Rightarrow> bool" where
  "invalid_columns df = (''timestamp'' \<notin> set (columns df) \<or> ''kwh'' \<notin> set (columns df))"

text \<open>Lines 39, 46 and 47 on a frame that passed the gate.\<close>

definition tag_rows ::
  "(string \<Rightarrow> real option) \<Rightarrow> string \<Rightarrow> string \<Rightarrow> frame \<Rightarrow> cell reading list" where
  "tag_rows num bld mon df =
     map (\<lambda>row. \<lparr>timestamp = column_cell ''timestamp'' df row,
                 kwh = to_numeric num (column_cell ''kwh'' df row),
                 building = bld, month = mon\<rparr>) (rows df)"

text \<open>
  The body of the \<open>try\<close> of lines 14-52 for one file: \<open>Inr\<close> is the frame appended
  to \<open>all_rows\<close> in line 48, \<open>Inl\<close> the line appended to \<open>logs\<close> by the validation
  gate (line 43) or by an \<open>except\<close> clause (lines 50 and 52). The exception of line 34
  is caught by the clause of line 51 like any other.
\<close>

definition try_file :: "(string \<Rightarrow> real option) \<Rightarrow> csv_path \<Rightarrow> string + cell reading list" where
  "try_file num f =
     (case name_tags (stem f) of (bld, mon) \<Rightarrow>
       (case read_csv f of
          FileNotFoundError \<Rightarrow> Inl (''Missing file: '' @ path_str f)
        | OtherException e \<Rightarrow> Inl (''Error reading '' @ name f @ '': '' @ e)
        | Frame df0 \<Rightarrow>
            (case repair df0 of
               Inl e \<Rightarrow> Inl (''Error reading '' @ name f @ '': '' @ e)
             | Inr df \<Rightarrow>
                 if invalid_columns df then Inl (''Invalid columns in '' @ name f)
                 else Inr (tag_rows num bld mon df))))"

text \<open>One pass of the loop of line 13 on the accumulators \<open>all_rows\<close> and \<open>logs\<close>.\<close>

definition load_file ::
  "(string \<Rightarrow> real option) \<Rightarrow> csv_path \<Rightarrow>
   cell reading list list \<times> string list \<Rightarrow> cell reading list list \<times> string list" where
  "load_file num f st =
     (case st of (all_rows, logs) \<Rightarrow>
       (case try_file num f of
          Inl msg \<Rightarrow> (all_rows, logs @ [msg])
        | Inr df \<Rightarrow> (all_rows @ [df], logs)))"

definition load_loop ::
  "(string \<Rightarrow> real option) \<Rightarrow> csv_path list \<Rightarrow>
   cell reading list list \<times> string list \<Rightarrow> cell reading list list \<times> string list" where
  "load_loop num files st = fold (load_file num) files st"

text \<open>Lines 9-58. \<open>Inl\<close> is the RuntimeError of line 55.\<close>

definition load_all_csvs ::
  "(string \<Rightarrow> real option) \<Rightarrow> csv_path list \<Rightarrow> error + cell reading list \<times> string list" where
  "load_all_csvs num files =
     (case load_loop num files ([], []) of (all_rows, logs) \<Rightarrow>
        if all_rows = [] then Inl (RuntimeError ''No valid CSV files found in data directory.'')
        else Inr (concat all_rows, logs))"

subsection \<open>Timestamp normalisation: \<open>preprocess\<close>\<close>

text \<open>
  What \<open>pd.to_datetime\<close> makes of one text of a column: a point in time (a number of
  seconds since 1970-01-01T00:00:00), the missing value NaT (pandas reads the empty text
  and texts such as \<open>NaT\<close> so), or an error.
\<close>

datatype datetime_text = Point int | Missing | Rejected

text \<open>
  Line 62, \<open>pd.to_datetime(df["timestamp"])\<close>, with the default \<open>errors="raise"\<close>.
  The library's reading of a text is the parameter \<open>dt\<close>. It is given the texts of the
  whole column besides the text to read, since pandas settles on the format of the first
  text of a column and rejects a text of another format. An empty cell becomes NaT
  (\<open>None\<close>); a rejected text raises a ValueError, which carries the text here.
\<close>

definition column_texts :: "cell reading list \<Rightarrow> string list" where
  "column_texts df = List.map_filter timestamp df"

definition to_datetime ::
  "(string list \<Rightarrow> string \<Rightarrow> datetime_text) \<Rightarrow> string list \<Rightarrow> cell \<Rightarrow> error + int option" where
  "to_datetime dt col c =
     (case c of
        None \<Rightarrow> Inr None
      | Some s \<Rightarrow>
          (case dt col s of
             Rejected \<Rightarrow> Inl (ValueError s)
           | Missing \<Rightarrow> Inr None
           | Point t \<Rightarrow> Inr (Some t)))"

text \<open>The conversion of the whole column: the first text that fails raises.\<close>

fun to_datetime_rows ::
  "(string list \<Rightarrow> string \<Rightarrow> datetime_text) \<Rightarrow> string list \<Rightarrow> cell reading list
   \<Rightarrow> error + int option reading list" where
  "to_datetime_rows dt col [] = Inr []"
| "to_datetime_rows dt col (r # rs) =
     (case to_datetime dt col (timestamp r) of
        Inl e \<Rightarrow> Inl e
      | Inr t \<Rightarrow>
          (case to_datetime_rows dt col rs of
             Inl e \<Rightarrow> Inl e
           | Inr rs' \<Rightarrow>
               Inr (\<lparr>timestamp = t, kwh = kwh r, building = building r, month = month r\<rparr> # rs')))"

text \<open>Line 63, \<open>sort_values("timestamp")\<close>: ascending, rows with NaT last.\<close>

definition sort_values_timestamp :: "int option reading list \<Rightarrow> int option reading list" where
  "sort_values_timestamp df =
     sort_key (\<lambda>r. case timestamp r of None \<Rightarrow> 0 | Some t \<Rightarrow> t)
       (filter (\<lambda>r. timestamp r \<noteq> None) df)
     @ filter (\<lambda>r. timestamp r = None) df"

text \<open>Lines 61-65. The index set in line 64 is the field \<open>timestamp\<close>.\<close>

definition preprocess ::
  "(string list \<Rightarrow> string \<Rightarrow> datetime_text) \<Rightarrow> cell reading list
   \<Rightarrow> error + int option reading list" where
  "preprocess dt df =
     (case to_datetime_rows dt (column_texts df) df of
        Inl e \<Rightarrow> Inl e
      | Inr df' \<Rightarrow> Inr (sort_values_timestamp df'))"

subsection \<open>Aggregation\<close>

text \<open>
  The aggregation functions take the table \<open>preprocess\<close> returns, whose index may hold
  NaT. Three things are the library's and are parameters of the model:
  \<^item> \<open>float_sum\<close>, the float64 sum of a list of present values that is not empty, as the
    grouped \<open>sum\<close> of pandas computes it (float64 addition rounds, so the result depends
    on the order and the grouping of the additions);
  \<^item> \<open>float_mean\<close>, the float64 mean of such a list;
  \<^item> \<open>no_time_group\<close>, what \<open>resample\<close> does with a group none of whose rows has a
    point in time as its index: \<open>None\<close> when it gives no row for the group, \<open>Some e\<close>
    when it raises \<open>e\<close>.
\<close>

record library =
  float_sum :: "real list \<Rightarrow> real"
  float_mean :: "real list \<Rightarrow> real"
  no_time_group :: "error option"

text \<open>\<open>groupby("building")\<close>: the groups in ascending order of their key.\<close>

definition buildings :: "'t reading list \<Rightarrow> string list" where
  "buildings df = sort (remdups (map building df))"

definition group :: "string \<Rightarrow> 't reading list \<Rightarrow> 't reading list" where
  "group b df = filter (\<lambda>r. building r = b) df"

text \<open>
  The values of a column that are present, in row order: every reduction of pandas
  skips NaN. The sum of no value is 0; mean, min and max of no value are NaN.
\<close>

definition present :: "'t reading list \<Rightarrow> real list" where
  "present g = List.map_filter kwh g"

definition agg_sum :: "library \<Rightarrow> real list \<Rightarrow> real" where
  "agg_sum L vs = (if vs = [] then 0 else float_sum L vs)"

definition agg_mean :: "library \<Rightarrow> real list \<Rightarrow> real option" where
  "agg_mean L vs = (if vs = [] then None else Some (float_mean L vs))"

definition agg_min :: "real list \<Rightarrow> real option" where
  "agg_min vs = (if vs = [] then None else Some (Min (set vs)))"

definition agg_max :: "real list \<Rightarrow> real option" where
  "agg_max vs = (if vs = [] then None else Some (Max (set vs)))"

text \<open>
  \<open>.resample(rule).sum()\<close> on one group. \<open>label\<close> gives the label of the bin a point
  in time falls in, \<open>freq\<close> the distance of two labels. A row whose index is NaT falls
  in no bin. pandas lays the bins from the bin of the earliest point in time of the
  group to the bin of the latest one, every bin in between included, and the sum of a
  bin without a value is 0.
\<close>

definition stamps :: "int option reading list \<Rightarrow> int list" where
  "stamps g = List.map_filter timestamp g"

definition in_bin :: "(int \<Rightarrow> int) \<Rightarrow> int \<Rightarrow> int option reading \<Rightarrow> bool" where
  "in_bin label l r = (case timestamp r of None \<Rightarrow> False | Some t \<Rightarrow> label t = l)"

definition bins ::
  "library \<Rightarrow> (int \<Rightarrow> int) \<Rightarrow> int \<Rightarrow> int option reading list \<Rightarrow> (int \<times> real) list" where
  "bins L label freq g =
     (if stamps g = [] then []
      else
        (let labels = map label (stamps g);
             lo = Min (set labels);
             hi = Max (set labels)
         in map (\<lambda>k. (lo + freq * k, agg_sum L (present (filter (in_bin label (lo + freq * k)) g))))
                [0 .. (hi - lo) div freq]))"

definition resample_sum ::
  "library \<Rightarrow> (int \<Rightarrow> int) \<Rightarrow> int \<Rightarrow> int option reading list \<Rightarrow> error + (int \<times> real) list" where
  "resample_sum L label freq g =
     (if stamps g = [] then (case no_time_group L of None \<Rightarrow> Inr [] | Some e \<Rightarrow> Inl e)
      else Inr (bins L label freq g))"

text \<open>The tables of the groups, one after the other; the first group that raises ends it.\<close>

fun collect :: "(error + 'a list) list \<Rightarrow> error + 'a list" where
  "collect [] = Inr []"
| "collect (x # xs) =
     (case x of
        Inl e \<Rightarrow> Inl e
      | Inr ys \<Rightarrow> (case collect xs of Inl e \<Rightarrow> Inl e | Inr zs \<Rightarrow> Inr (ys @ zs)))"

text \<open>
  \<open>groupby("building")["kwh"].resample(rule).sum().reset_index()\<close>: the rows
  (building, timestamp, kwh) of every group.
\<close>

definition groupby_resample_sum ::
  "library \<Rightarrow> (int \<Rightarrow> int) \<Rightarrow> int \<Rightarrow> int option reading list
   \<Rightarrow> error + (string \<times> int \<times> real) list" where
  "groupby_resample_sum L label freq df =
     collect (map (\<lambda>b. map_sum id (map (\<lambda>(l, s). (b, l, s)))
                          (resample_sum L label freq (group b df)))
                  (buildings df))"

definition seconds_per_day :: int where
  "seconds_per_day = 86400"

text \<open>The number of the calendar day of a point in time (day 0 is 1970-01-01).\<close>

definition day_of :: "int \<Rightarrow> int" where
  "day_of t = t div seconds_per_day"

text \<open>pandas' \<open>dayofweek\<close>: Monday is 0, Sunday is 6; 1970-01-01 was a Thursday.\<close>

definition weekday :: "int \<Rightarrow> int" where
  "weekday t = (day_of t + 3) mod 7"

text \<open>Rule \<open>"D"\<close>: bins of one calendar day, closed and labelled on the left.\<close>

definition label_D :: "int \<Rightarrow> int" where
  "label_D t = day_of t * seconds_per_day"

text \<open>
  Rule \<open>"W-MON"\<close>: weekly bins anchored on Monday; for the weekly rules pandas takes
  \<open>closed="right"\<close> and \<open>label="right"\<close>, and a day counts as a whole. So a bin is
  labelled with the midnight of the first Monday that is not before the day of the
  reading: it holds the days from a Tuesday to the Monday after.
\<close>

definition label_W_MON :: "int \<Rightarrow> int" where
  "label_W_MON t = (day_of t + (7 - weekday t) mod 7) * seconds_per_day"

text \<open>Lines 67-69.\<close>

definition calculate_daily_totals ::
  "library \<Rightarrow> int option reading list \<Rightarrow> error + (string \<times> int \<times> real) list" where
  "calculate_daily_totals L df = groupby_resample_sum L label_D seconds_per_day df"

text \<open>Lines 72-74.\<close>

definition calculate_weekly_aggregates ::
  "library \<Rightarrow> int option reading list \<Rightarrow> error + (string \<times> int \<times> real) list" where
  "calculate_weekly_aggregates L df = groupby_resample_sum L label_W_MON (7 * seconds_per_day) df"

text \<open>
  Lines 77-81. A row of the summary. The groups are formed on the column \<open>building\<close>
  alone, so a row counts whatever its index is.
\<close>

record summary_row =
  sm_building :: string
  mean :: "real option"
  min_kwh :: "real option"
  max_kwh :: "real option"
  total :: real

definition building_wise_summary :: "library \<Rightarrow> 't reading list \<Rightarrow> summary_row list" where
  "building_wise_summary L df =
     map (\<lambda>b. let vs = present (group b df)
              in \<lparr>sm_building = b, mean = agg_mean L vs, min_kwh = agg_min vs,
                  max_kwh = agg_max vs, total = agg_sum L vs\<rparr>)
         (buildings df)"

subsection \<open>A concrete library and concrete readers of text, for the examples\<close>

text \<open>
  The theorems below hold for every library and for every reader \<open>num\<close> and \<open>dt\<close>. The
  examples use a reader of plain decimal numbers, a reader of the ISO form
  \<open>YYYY-MM-DD\<close>, optionally followed by \<open>T\<close> or a blank and \<open>HH:MM:SS\<close>, and a library
  whose sum and mean are exact, as the float64 ones are on the few small values of the
  examples (whole numbers and halves). That library raises on a group without a point
  in time, the bins of which would run from NaT to NaT; no example has such a group.
\<close>

definition exact_library :: library where
  "exact_library =
     \<lparr>float_sum = sum_list, float_mean = (\<lambda>vs. sum_list vs / real (length vs)),
      no_time_group = Some (ValueError ''Neither `start` nor `end` can be NaT'')\<rparr>"

definition digit :: "char \<Rightarrow> nat option" where
  "digit c = (let n = (of_char c :: nat) in if 48 \<le> n \<and> n \<le> 57 then Some (n - 48) else None)"

fun digits :: "string \<Rightarrow> nat \<Rightarrow> nat option" where
  "digits [] acc = Some acc"
| "digits (c # cs) acc = (case digit c of None \<Rightarrow> None | Some d \<Rightarrow> digits cs (10 * acc + d))"

definition number :: "string \<Rightarrow> nat option" where
  "number s = (if s = [] then None else digits s 0)"

definition decimal :: "string \<Rightarrow> real option" where
  "decimal s =
     (let neg = startswith ''-'' s;
          body = (if neg then tl s else s);
          ip = takeWhile (\<lambda>c. c \<noteq> CHR ''.'') body;
          rest = dropWhile (\<lambda>c. c \<noteq> CHR ''.'') body;
          sgn = (if neg then - 1 else 1)
      in case number ip of
           None \<Rightarrow> None
         | Some i \<Rightarrow>
             (if rest = [] then Some (sgn * real i)
              else (case number (tl rest) of
                      None \<Rightarrow> None
                    | Some f \<Rightarrow> Some (sgn * (real i + real f / 10 ^ length (tl rest))))))"

text \<open>Days from 1970-01-01 to a date of the proleptic Gregorian calendar.\<close>

definition days_from_civil :: "int \<Rightarrow> int \<Rightarrow> int \<Rightarrow> int" where
  "days_from_civil y m d =
     (let y' = (if m \<le> 2 then y - 1 else y);
          era = y' div 400;
          yoe = y' - era * 400;
          doy = (153 * (if m > 2 then m - 3 else m + 9) + 2) div 5 + d - 1;
          doe = yoe * 365 + yoe div 4 - yoe div 100 + doy
      in era * 146097 + doe - 719468)"

definition days_in_month :: "int \<Rightarrow> int \<Rightarrow> int" where
  "days_in_month y m =
     (if m = 2 then (if y mod 4 = 0 \<and> (y mod 100 \<noteq> 0 \<or> y mod 400 = 0) then 29 else 28)
      else if m = 4 \<or> m = 6 \<or> m = 9 \<or> m = 11 then 30 else 31)"

definition field :: "nat \<Rightarrow> nat \<Rightarrow> string \<Rightarrow> int option" where
  "field i n s = map_option int (number (take n (drop i s)))"

definition sep_at :: "nat \<Rightarrow> char \<Rightarrow> string \<Rightarrow> bool" where
  "sep_at i c s = (i < length s \<and> s ! i = c)"

definition iso_date :: "string \<Rightarrow> int option" where
  "iso_date s =
     (case (field 0 4 s, field 5 2 s, field 8 2 s) of
        (Some y, Some m, Some d) \<Rightarrow>
          if sep_at 4 CHR ''-'' s \<and> sep_at 7 CHR ''-'' s \<and> 1 \<le> m \<and> m \<le> 12
             \<and> 1 \<le> d \<and> d \<le> days_in_month y m
          then Some (days_from_civil y m d) else None
      | _ \<Rightarrow> None)"

definition iso_time :: "string \<Rightarrow> int option" where
  "iso_time s =
     (case (field 11 2 s, field 14 2 s, field 17 2 s) of
        (Some h, Some mi, Some sec) \<Rightarrow>
          if (sep_at 10 CHR ''T'' s \<or> sep_at 10 CHR '' '' s) \<and> sep_at 13 CHR '':'' s
             \<and> sep_at 16 CHR '':'' s \<and> h < 24 \<and> mi < 60 \<and> sec < 60
          then Some (h * 3600 + mi * 60 + sec) else None
      | _ \<Rightarrow> None)"

definition iso_datetime :: "string \<Rightarrow> int option" where
  "iso_datetime s =
     (if length s = 10 then map_option (\<lambda>d. d * seconds_per_day) (iso_date s)
      else if length s = 19 then
        (case (iso_date (take 10 s), iso_time s) of
           (Some d, Some t) \<Rightarrow> Some (d * seconds_per_day + t)
         | _ \<Rightarrow> None)
      else None)"

text \<open>
  The reader of a column of ISO texts, as pandas 2 reads it: the empty text and the texts
  of \<open>nat_text\<close> are NaT; the format of the column is that of its first text that is not
  one of these, and a text of another format, or one that is no date, is rejected.
\<close>

definition nat_text :: "string \<Rightarrow> bool" where
  "nat_text s = (s \<in> set ['''', ''NaT'', ''nat'', ''NAT'', ''nan'', ''NaN'', ''NAN''])"

datatype iso_format = Date_only | Date_T_time | Date_blank_time

definition iso_format_of :: "string \<Rightarrow> iso_format option" where
  "iso_format_of s =
     (if length s = 10 then Some Date_only
      else if length s = 19 \<and> sep_at 10 CHR ''T'' s then Some Date_T_time
      else if length s = 19 \<and> sep_at 10 CHR '' '' s then Some Date_blank_time
      else None)"

definition iso_reader :: "string list \<Rightarrow> string \<Rightarrow> datetime_text" where
  "iso_reader col s =
     (if nat_text s then Missing
      else
        (case filter (\<lambda>x. \<not> nat_text x) col of
           [] \<Rightarrow> Rejected
         | x # _ \<Rightarrow>
             if iso_format_of s = iso_format_of x
             then (case iso_datetime s of None \<Rightarrow> Rejected | Some t \<Rightarrow> Point t)
             else Rejected))"

subsection \<open>Example inputs\<close>

definition admin_frame :: frame where
  "admin_frame =
     \<lparr>columns = [''timestamp'', ''kwh''],
      rows = [[Some ''2025-01-01T00:00:00'', Some ''3.5''],
              [Some ''2025-01-03T06:30:00'', Some ''N/A'']]\<rparr>"

definition admin_file :: csv_path where
  "admin_file =
     \<lparr>path_str = ''data/admin_block_2025-01.csv'', name = ''admin_block_2025-01.csv'',
      stem = ''admin_block_2025-01'', read_csv = Frame admin_frame\<rparr>"

definition vanished_file :: csv_path where
  "vanished_file =
     \<lparr>path_str = ''data/hostel_a_2025-01.csv'', name = ''hostel_a_2025-01.csv'',
      stem = ''hostel_a_2025-01'', read_csv = FileNotFoundError\<rparr>"

definition header_only_file :: csv_path where
  "header_only_file =
     \<lparr>path_str = ''data/library_2025-02.csv'', name = ''library_2025-02.csv'',
      stem = ''library_2025-02'',
      read_csv = Frame \<lparr>columns = [''timestamp'', ''kwh''], rows = []\<rparr>\<rparr>"

text \<open>One-column frames: a quoted export, one without any comma, one named otherwise.\<close>

definition quoted_frame :: frame where
  "quoted_frame =
     \<lparr>columns = [''timestamp,kwh''],
      rows = [[Some (CHR 0x22 # ''2025-01-01T00:00:00,3.5'' @ [CHR 0x22])],
              [Some ''2025-01-02T00:00:00'']]\<rparr>"

definition no_comma_frame :: frame where
  "no_comma_frame = \<lparr>columns = [''timestamp,kwh''], rows = [[Some ''2025-01-01T00:00:00'']]\<rparr>"

definition no_comma_file :: csv_path where
  "no_comma_file =
     \<lparr>path_str = ''data/lab_2025-03.csv'', name = ''lab_2025-03.csv'',
      stem = ''lab_2025-03'', read_csv = Frame no_comma_frame\<rparr>"

definition reading_frame :: frame where
  "reading_frame = \<lparr>columns = [''reading''], rows = [[Some ''2025-01-01T00:00:00,3.5'']]\<rparr>"

definition reading_file :: csv_path where
  "reading_file =
     \<lparr>path_str = ''data/gym_2025-03.csv'', name = ''gym_2025-03.csv'',
      stem = ''gym_2025-03'', read_csv = Frame reading_frame\<rparr>"

text \<open>
  Tables after \<open>preprocess\<close>. 1735689600 is 2025-01-01T00:00:00, a day has 86400
  seconds; 1735516800 is Monday 2024-12-30, 1736078400 is Sunday 2025-01-05 at noon,
  1736154000 is Monday 2025-01-06 at nine.
\<close>

definition gap_readings :: "int option reading list" where
  "gap_readings =
     [\<lparr>timestamp = Some 1735689600, kwh = Some 10, building = ''admin'', month = ''2025-01''\<rparr>,
      \<lparr>timestamp = Some 1735862400, kwh = Some 20, building = ''admin'', month = ''2025-01''\<rparr>]"

definition mixed_readings :: "int option reading list" where
  "mixed_readings =
     [\<lparr>timestamp = Some 1735689600, kwh = Some 10, building = ''admin'', month = ''2025-01''\<rparr>,
      \<lparr>timestamp = Some 1735693200, kwh = None, building = ''admin'', month = ''2025-01''\<rparr>,
      \<lparr>timestamp = Some 1735693200, kwh = None, building = ''hostel'', month = ''2025-01''\<rparr>,
      \<lparr>timestamp = Some 1735779600, kwh = Some 4, building = ''admin'', month = ''2025-01''\<rparr>]"

definition weekend_readings :: "int option reading list" where
  "weekend_readings =
     [\<lparr>timestamp = Some 1735516800, kwh = Some 4, building = ''admin'', month = ''2024-12''\<rparr>,
      \<lparr>timestamp = Some 1736078400, kwh = Some 1, building = ''admin'', month = ''2025-01''\<rparr>,
      \<lparr>timestamp = Some 1736154000, kwh = Some 2, building = ''admin'', month = ''2025-01''\<rparr>]"

text \<open>A table with a row whose index is NaT.\<close>

definition nat_readings :: "int option reading list" where
  "nat_readings =
     [\<lparr>timestamp = Some 1735689600, kwh = Some (3 / 2), building = ''admin'', month = ''2025-01''\<rparr>,
      \<lparr>timestamp = None, kwh = Some (5 / 2), building = ''admin'', month = ''2025-01''\<rparr>]"



definition raw_rows :: "cell reading list" where
  "raw_rows =
     [\<lparr>timestamp = Some ''2025-01-03T06:30:00'', kwh = Some 2, building = ''admin'', month = ''2025-01''\<rparr>,
      \<lparr>timestamp = None, kwh = Some 5, building = ''admin'', month = ''2025-01''\<rparr>,
      \<lparr>timestamp = Some [], kwh = Some 7, building = ''admin'', month = ''2025-01''\<rparr>,
      \<lparr>timestamp = Some ''2025-01-01T00:00:00'', kwh = Some 10, building = ''admin'', month = ''2025-01''\<rparr>]"

definition bad_timestamp_rows :: "cell reading list" where
  "bad_timestamp_rows =
     [\<lparr>timestamp = Some ''2025-01-01'', kwh = Some 10, building = ''admin'', month = ''2025-01''\<rparr>,
      \<lparr>timestamp = Some ''not a timestamp'', kwh = Some 3, building = ''admin'', month = ''2025-01''\<rparr>]"

definition mixed_format_rows :: "cell reading list" where
  "mixed_format_rows =
     [\<lparr>timestamp = Some ''2025-01-03T06:30:00'', kwh = Some 2, building = ''admin'', month = ''2025-01''\<rparr>,
      \<lparr>timestamp = Some ''2025-01-01'', kwh = Some 10, building = ''admin'', month = ''2025-01''\<rparr>]"

section \<open>Ingestion: the loop over the files\<close>

lemma str_split_not_Nil: "str_split sep s \<noteq> []"
  by (induction s) (auto split: list.splits)

lemma str_split_no_sep: "p \<in> set (str_split sep s) \<Longrightarrow> sep \<notin> set p"
  by (induction s arbitrary: p) (auto split: if_splits list.splits)

text \<open>The two accumulators only grow: a frame or a log line per file, in file order.\<close>

lemma load_loop_eq:
  "load_loop num files (a, l) =
     (a @ concat (map (\<lambda>f. case try_file num f of Inl m \<Rightarrow> [] | Inr df \<Rightarrow> [df]) files),
      l @ concat (map (\<lambda>f. case try_file num f of Inl m \<Rightarrow> [m] | Inr df \<Rightarrow> []) files))"
proof (induction files arbitrary: a l)
  case Nil
  show ?case by (simp add: load_loop_def)
next
  case (Cons f fs)
  have "load_loop num (f # fs) (a, l) = load_loop num fs (load_file num f (a, l))"
    by (simp add: load_loop_def)
  then show ?case
    by (cases "try_file num f") (simp_all add: load_file_def Cons.IH)
qed

lemma frames_Nil_iff:
  "concat (map (\<lambda>f. case try_file num f of Inl m \<Rightarrow> [] | Inr df \<Rightarrow> [df]) files) = []
     \<longleftrightarrow> (\<forall>f\<in>set files. isl (try_file num f))"
  by (induction files) (auto split: sum.splits)

lemma concat_frames:
  "concat (concat (map (\<lambda>f. case try_file num f of Inl m \<Rightarrow> [] | Inr df \<Rightarrow> [df]) files))
     = concat (map (\<lambda>f. case try_file num f of Inl m \<Rightarrow> [] | Inr df \<Rightarrow> df) files)"
  by (induction files) (auto split: sum.splits)

lemma load_all_csvs_eq:
  "load_all_csvs num files =
     (if \<forall>f\<in>set files. isl (try_file num f)
      then Inl (RuntimeError ''No valid CSV files found in data directory.'')
      else Inr (concat (map (\<lambda>f. case try_file num f of Inl m \<Rightarrow> [] | Inr df \<Rightarrow> df) files),
                concat (map (\<lambda>f. case try_file num f of Inl m \<Rightarrow> [m] | Inr df \<Rightarrow> []) files)))"
  unfolding load_all_csvs_def load_loop_eq
  by (simp add: frames_Nil_iff concat_frames del: concat_eq_Nil_conv)

lemma try_file_Inr_iff:
  "try_file num f = Inr rs \<longleftrightarrow>
     (\<exists>df0 df. read_csv f = Frame df0 \<and> repair df0 = Inr df \<and> \<not> invalid_columns df
        \<and> rs = tag_rows num (fst (name_tags (stem f))) (snd (name_tags (stem f))) df)"
  by (auto simp: try_file_def split: prod.splits read_result.splits sum.splits)

lemma try_admin_file:
  "try_file decimal admin_file =
     Inr [\<lparr>timestamp = Some ''2025-01-01T00:00:00'', kwh = Some (7 / 2),
            building = ''admin'', month = ''2025-01''\<rparr>,
          \<lparr>timestamp = Some ''2025-01-03T06:30:00'', kwh = None,
            building = ''admin'', month = ''2025-01''\<rparr>]"
  by code_simp

lemma try_vanished_file:
  "try_file decimal vanished_file = Inl ''Missing file: data/hostel_a_2025-01.csv''"
  by code_simp

text \<open>
  C8. The stem of the file name is split at every underscore. The building tag is the
  first part (``Unknown'' were the list of parts empty, which a split never gives), the
  month tag is the last part when there are at least two parts and ``Unknown'' otherwise.
  Every row of a file that passes the gate carries these two tags, in the frame appended
  for the file and in the combined table.
\<close>

theorem filename_tags:
  "name_tags st =
     (if str_split CHR ''_'' st = [] then ''Unknown'' else hd (str_split CHR ''_'' st),
      if length (str_split CHR ''_'' st) > 1 then last (str_split CHR ''_'' st) else ''Unknown'')
   \<and> str_split CHR ''_'' st \<noteq> []
   \<and> (\<forall>rs. try_file num f = Inr rs \<longrightarrow>
         (\<forall>r\<in>set rs. (building r, month r) = name_tags (stem f)))
   \<and> (\<forall>df logs. load_all_csvs num files = Inr (df, logs) \<longrightarrow>
         (\<forall>r\<in>set df. \<exists>f\<in>set files. (building r, month r) = name_tags (stem f)))"
proof -
  have tags: "\<forall>r\<in>set rs. (building r, month r) = name_tags (stem g)"
    if "try_file num g = Inr rs" for g rs
    using that by (auto simp: try_file_Inr_iff tag_rows_def)
  have comb: "\<exists>f\<in>set files. (building r, month r) = name_tags (stem f)"
    if "load_all_csvs num files = Inr (df, logs)" and "r \<in> set df" for df logs r
  proof -
    from that
    have "r \<in> set (concat (map (\<lambda>f. case try_file num f of Inl m \<Rightarrow> [] | Inr d \<Rightarrow> d) files))"
      by (auto simp add: load_all_csvs_eq split: if_splits)
    then obtain g where g: "g \<in> set files"
        "r \<in> set (case try_file num g of Inl m \<Rightarrow> [] | Inr d \<Rightarrow> d)"
      by auto
    then obtain rs where "try_file num g = Inr rs" "r \<in> set rs"
      by (cases "try_file num g") auto
    with tags g(1) show ?thesis by blast
  qed
  have nt: "name_tags st =
     (if str_split CHR ''_'' st = [] then ''Unknown'' else hd (str_split CHR ''_'' st),
      if length (str_split CHR ''_'' st) > 1 then last (str_split CHR ''_'' st) else ''Unknown'')"
    by (simp add: name_tags_def Let_def str_split_not_Nil)
  show ?thesis
  proof (intro conjI allI impI)
    show "name_tags st =
     (if str_split CHR ''_'' st = [] then ''Unknown'' else hd (str_split CHR ''_'' st),
      if length (str_split CHR ''_'' st) > 1 then last (str_split CHR ''_'' st) else ''Unknown'')"
      by (rule nt)
    show "str_split CHR ''_'' st \<noteq> []" by (rule str_split_not_Nil)
    show "\<forall>r\<in>set rs. (building r, month r) = name_tags (stem f)"
      if "try_file num f = Inr rs" for rs
      using tags that by blast
    show "\<forall>r\<in>set df. \<exists>f\<in>set files. (building r, month r) = name_tags (stem f)"
      if "load_all_csvs num files = Inr (df, logs)" for df logs
      using comb that by blast
  qed
qed

text \<open>The file \<open>admin_block_2025-01.csv\<close>: building ``admin'', month ``2025-01''.\<close>

theorem filename_tags_witness:
  "name_tags ''admin_block_2025-01'' = (''admin'', ''2025-01'')
   \<and> name_tags ''admin'' = (''admin'', ''Unknown'')
   \<and> (\<exists>rs. try_file decimal admin_file = Inr rs \<and> length rs = 2
         \<and> list_all (\<lambda>r. (building r, month r) = (''admin'', ''2025-01'')) rs)"
proof -
  have n: "name_tags ''admin_block_2025-01'' = (''admin'', ''2025-01'')"
    and n1: "name_tags ''admin'' = (''admin'', ''Unknown'')"
    and s: "stem admin_file = ''admin_block_2025-01''"
    by code_simp+
  from filename_tags [of "''admin_block_2025-01''" decimal admin_file "[admin_file]"]
    try_admin_file
  have "\<forall>r\<in>set [\<lparr>timestamp = Some ''2025-01-01T00:00:00'', kwh = Some (7 / 2),
            building = ''admin'', month = ''2025-01''\<rparr>,
          \<lparr>timestamp = Some ''2025-01-03T06:30:00'', kwh = None,
            building = ''admin'', month = ''2025-01''\<rparr>].
          (building r, month r) = name_tags (stem admin_file)"
    by blast
  then show ?thesis
    using n n1 s try_admin_file by (simp add: list_all_iff)
qed

text \<open>
  C6, as the code has it. A file that is missing, that cannot be read or parsed (the
  exception of the repair included), or that lacks a \<open>timestamp\<close> or a \<open>kwh\<close> column
  after the repair, adds exactly one line to the log and no frame: ``Missing file:
  <path>'', ``Error reading <name>: <message>'' or ``Invalid columns in <name>'', with
  the capital letter the code writes. The loop goes on with the files after it, and
  \<open>load_all_csvs\<close> returns what it returns without the file, with the line in its log,
  between the lines of the files before and of the files after. It raises only its one
  RuntimeError, and that when no other file passed the gate either.
\<close>

theorem malformed_file_skipped:
  assumes "read_csv f = FileNotFoundError \<and> msg = ''Missing file: '' @ path_str f
         \<or> (\<exists>e. read_csv f = OtherException e \<and> msg = ''Error reading '' @ name f @ '': '' @ e)
         \<or> (\<exists>df0 e. read_csv f = Frame df0 \<and> repair df0 = Inl e
                \<and> msg = ''Error reading '' @ name f @ '': '' @ e)
         \<or> (\<exists>df0 df. read_csv f = Frame df0 \<and> repair df0 = Inr df \<and> invalid_columns df
                \<and> msg = ''Invalid columns in '' @ name f)"
  shows "load_file num f (all_rows, logs) = (all_rows, logs @ [msg])
       \<and> load_loop num (before @ f # after) ([], []) =
           (fst (load_loop num (before @ after) ([], [])),
            snd (load_loop num before ([], [])) @ msg # snd (load_loop num after ([], [])))
       \<and> load_all_csvs num (before @ f # after) =
           (if \<forall>g\<in>set (before @ after). isl (try_file num g)
            then Inl (RuntimeError ''No valid CSV files found in data directory.'')
            else Inr (concat (map (\<lambda>g. case try_file num g of Inl m \<Rightarrow> [] | Inr df \<Rightarrow> df)
                               (before @ after)),
                      concat (map (\<lambda>g. case try_file num g of Inl m \<Rightarrow> [m] | Inr df \<Rightarrow> [])
                               before)
                      @ msg # concat (map (\<lambda>g. case try_file num g of Inl m \<Rightarrow> [m] | Inr df \<Rightarrow> [])
                                       after)))"
proof -
  from assms have t: "try_file num f = Inl msg"
    by (auto simp: try_file_def split: prod.splits)
  have 1: "load_file num f (all_rows, logs) = (all_rows, logs @ [msg])"
    by (simp add: load_file_def t)
  have 2: "load_loop num (before @ f # after) ([], []) =
           (fst (load_loop num (before @ after) ([], [])),
            snd (load_loop num before ([], [])) @ msg # snd (load_loop num after ([], [])))"
    by (simp add: load_loop_eq t)
  have 3: "load_all_csvs num (before @ f # after) =
           (if \<forall>g\<in>set (before @ after). isl (try_file num g)
            then Inl (RuntimeError ''No valid CSV files found in data directory.'')
            else Inr (concat (map (\<lambda>g. case try_file num g of Inl m \<Rightarrow> [] | Inr df \<Rightarrow> df)
                               (before @ after)),
                      concat (map (\<lambda>g. case try_file num g of Inl m \<Rightarrow> [m] | Inr df \<Rightarrow> [])
                               before)
                      @ msg # concat (map (\<lambda>g. case try_file num g of Inl m \<Rightarrow> [m] | Inr df \<Rightarrow> [])
                                       after)))"
    by (simp add: load_all_csvs_eq t ball_Un)
  from 1 2 3 show ?thesis by (intro conjI)
qed

text \<open>A vanished file between two readable ones: its line is the log that is returned.\<close>

theorem malformed_file_skipped_witness:
  "read_csv vanished_file = FileNotFoundError
   \<and> load_file decimal vanished_file ([], []) = ([], [''Missing file: data/hostel_a_2025-01.csv''])
   \<and> load_all_csvs decimal [admin_file, vanished_file, admin_file] =
       Inr ([\<lparr>timestamp = Some ''2025-01-01T00:00:00'', kwh = Some (7 / 2),
              building = ''admin'', month = ''2025-01''\<rparr>,
             \<lparr>timestamp = Some ''2025-01-03T06:30:00'', kwh = None,
              building = ''admin'', month = ''2025-01''\<rparr>,
             \<lparr>timestamp = Some ''2025-01-01T00:00:00'', kwh = Some (7 / 2),
              building = ''admin'', month = ''2025-01''\<rparr>,
             \<lparr>timestamp = Some ''2025-01-03T06:30:00'', kwh = None,
              building = ''admin'', month = ''2025-01''\<rparr>],
            [''Missing file: data/hostel_a_2025-01.csv''])"
proof -
  have r: "read_csv vanished_file = FileNotFoundError"
    and p: "path_str vanished_file = ''data/hostel_a_2025-01.csv''"
    by code_simp+
  from r p have h: "read_csv vanished_file = FileNotFoundError
      \<and> ''Missing file: data/hostel_a_2025-01.csv'' = ''Missing file: '' @ path_str vanished_file"
    by simp
  note t = malformed_file_skipped [of vanished_file "''Missing file: data/hostel_a_2025-01.csv''"
      decimal "[]" "[]" "[admin_file]" "[admin_file]"]
  from t h have 1: "load_file decimal vanished_file ([], []) =
      ([], [] @ [''Missing file: data/hostel_a_2025-01.csv''])"
    by blast
  from t h have 2: "load_all_csvs decimal ([admin_file] @ vanished_file # [admin_file]) =
           (if \<forall>g\<in>set ([admin_file] @ [admin_file]). isl (try_file decimal g)
            then Inl (RuntimeError ''No valid CSV files found in data directory.'')
            else Inr (concat (map (\<lambda>g. case try_file decimal g of Inl m \<Rightarrow> [] | Inr df \<Rightarrow> df)
                               ([admin_file] @ [admin_file])),
                      concat (map (\<lambda>g. case try_file decimal g of Inl m \<Rightarrow> [m] | Inr df \<Rightarrow> [])
                               [admin_file])
                      @ ''Missing file: data/hostel_a_2025-01.csv''
                        # concat (map (\<lambda>g. case try_file decimal g of Inl m \<Rightarrow> [m] | Inr df \<Rightarrow> [])
                                   [admin_file])))"
    by blast
  from r 1 2 show ?thesis by (simp add: try_admin_file)
qed

text \<open>
  The claim as the spec words it fails in two places. The line the code logs for a
  vanished file is ``Missing file: ...'', not ``missing file: ...''. And a malformed file
  that is the only file of the directory does make \<open>load_all_csvs\<close> raise.
\<close>

theorem log_line_counterexample:
  "load_all_csvs decimal [admin_file, vanished_file] =
     Inr ([\<lparr>timestamp = Some ''2025-01-01T00:00:00'', kwh = Some (7 / 2),
            building = ''admin'', month = ''2025-01''\<rparr>,
           \<lparr>timestamp = Some ''2025-01-03T06:30:00'', kwh = None,
            building = ''admin'', month = ''2025-01''\<rparr>],
          [''Missing file: data/hostel_a_2025-01.csv''])
   \<and> ''Missing file: data/hostel_a_2025-01.csv'' \<noteq> ''missing file: data/hostel_a_2025-01.csv''
   \<and> load_all_csvs decimal [vanished_file] =
        Inl (RuntimeError ''No valid CSV files found in data directory.'')"
  by (simp add: load_all_csvs_eq try_admin_file try_vanished_file)

lemma try_header_only_file: "try_file decimal header_only_file = Inr []"
  by code_simp

text \<open>
  C7, as the code has it. The test of line 54 is on the list of appended frames, not on
  the number of rows: \<open>load_all_csvs\<close> raises the RuntimeError exactly when no file
  passed the validation gate (so there is no table for any aggregation to run on), and
  otherwise returns the rows of the accepted files, in file order, with the log. A file
  passes the gate when it was read, its repair did not raise, and the frame then has the
  columns \<open>timestamp\<close> and \<open>kwh\<close>; it may hold no row at all.
\<close>

theorem no_valid_input:
  "(isl (try_file num f) \<longleftrightarrow>
      \<not> (\<exists>df0 df. read_csv f = Frame df0 \<and> repair df0 = Inr df \<and> \<not> invalid_columns df))
   \<and> ((\<forall>f\<in>set files. isl (try_file num f)) \<longrightarrow>
        load_all_csvs num files = Inl (RuntimeError ''No valid CSV files found in data directory.''))
   \<and> ((\<exists>f\<in>set files. \<not> isl (try_file num f)) \<longrightarrow>
        load_all_csvs num files =
          Inr (concat (map (\<lambda>f. case try_file num f of Inl m \<Rightarrow> [] | Inr df \<Rightarrow> df) files),
               concat (map (\<lambda>f. case try_file num f of Inl m \<Rightarrow> [m] | Inr df \<Rightarrow> []) files)))"
proof -
  have "isl (try_file num f) \<longleftrightarrow>
      \<not> (\<exists>df0 df. read_csv f = Frame df0 \<and> repair df0 = Inr df \<and> \<not> invalid_columns df)"
    by (auto simp: try_file_def split: prod.splits read_result.splits sum.splits)
  then show ?thesis
    by (simp add: load_all_csvs_eq)
qed

text \<open>A directory with a vanished file only, and one with a readable file as well.\<close>

theorem no_valid_input_witness:
  "load_all_csvs decimal [vanished_file] =
     Inl (RuntimeError ''No valid CSV files found in data directory.'')
   \<and> load_all_csvs decimal [vanished_file, admin_file] =
     Inr ([\<lparr>timestamp = Some ''2025-01-01T00:00:00'', kwh = Some (7 / 2),
            building = ''admin'', month = ''2025-01''\<rparr>,
          \<lparr>timestamp = Some ''2025-01-03T06:30:00'', kwh = None,
            building = ''admin'', month = ''2025-01''\<rparr>],
          [''Missing file: data/hostel_a_2025-01.csv''])"
proof -
  have a: "\<forall>f\<in>set [vanished_file]. isl (try_file decimal f)"
    by (simp add: try_vanished_file)
  have b: "\<exists>f\<in>set [vanished_file, admin_file]. \<not> isl (try_file decimal f)"
    by (simp add: try_admin_file)
  from no_valid_input [of decimal vanished_file "[vanished_file]"] a
  have 1: "load_all_csvs decimal [vanished_file] =
     Inl (RuntimeError ''No valid CSV files found in data directory.'')"
    by blast
  from no_valid_input [of decimal vanished_file "[vanished_file, admin_file]"] b
  have 2: "load_all_csvs decimal [vanished_file, admin_file] =
          Inr (concat (map (\<lambda>f. case try_file decimal f of Inl m \<Rightarrow> [] | Inr df \<Rightarrow> df)
                 [vanished_file, admin_file]),
               concat (map (\<lambda>f. case try_file decimal f of Inl m \<Rightarrow> [m] | Inr df \<Rightarrow> [])
                 [vanished_file, admin_file]))"
    by blast
  from 1 2 show ?thesis
    by (simp add: try_admin_file try_vanished_file)
qed

text \<open>
  The claim as the spec words it fails on a file with the header \<open>timestamp,kwh\<close> and
  no data line: no file contributed a row, and \<open>load_all_csvs\<close> returns an empty table
  and an empty log instead of raising.
\<close>

theorem header_only_file_counterexample:
  "read_csv header_only_file = Frame \<lparr>columns = [''timestamp'', ''kwh''], rows = []\<rparr>
   \<and> load_all_csvs decimal [header_only_file] = Inr ([], [])"
  by (simp add: load_all_csvs_eq try_header_only_file) (simp add: header_only_file_def)

section \<open>The repair of one-column files\<close>

lemma repair_triggers_iff:
  "repair_triggers df \<longleftrightarrow>
     (\<exists>c. columns df = [c] \<and> str_contains ''timestamp'' c \<and> str_contains ''kwh'' c)"
proof
  assume "repair_triggers df"
  then show "\<exists>c. columns df = [c] \<and> str_contains ''timestamp'' c \<and> str_contains ''kwh'' c"
    by (cases "columns df") (auto simp: repair_triggers_def)
next
  assume "\<exists>c. columns df = [c] \<and> str_contains ''timestamp'' c \<and> str_contains ''kwh'' c"
  then show "repair_triggers df"
    by (auto simp: repair_triggers_def)
qed

lemma repair_triggers_columns:
  assumes "repair_triggers df"
  shows "''timestamp'' \<notin> set (columns df) \<and> ''kwh'' \<notin> set (columns df)"
proof -
  from assms obtain c where c: "columns df = [c]" "str_contains ''timestamp'' c"
      "str_contains ''kwh'' c"
    by (auto simp: repair_triggers_iff)
  have "\<not> str_contains ''kwh'' ''timestamp''" "\<not> str_contains ''timestamp'' ''kwh''"
    by simp_all
  with c show ?thesis by auto
qed

lemma fold_max_eq: "fold max xs (a::nat) = Max (insert a (set xs))"
proof (induction xs arbitrary: a)
  case Nil
  show ?case by simp
next
  case (Cons x xs)
  have "Max (insert (max x a) (set xs)) = Max (insert a (insert x (set xs)))"
    by (cases "set xs = {}") (auto simp: max.commute max.left_commute max.assoc)
  then show ?case by (simp add: Cons.IH)
qed

lemma length_split_n1: "length (split_n1 sep v) = (if sep \<in> set v then 2 else 1)"
  by (simp add: split_n1_def)

lemma width_split:
  "fst (expand (map (split_n1 sep) vs)) = 2 \<longleftrightarrow> (\<exists>v\<in>set vs. sep \<in> set v)"
proof -
  let ?L = "set (map length (map (split_n1 sep) vs))"
  have fin: "finite (insert 0 ?L)" by simp
  have le: "\<forall>n\<in>insert 0 ?L. n \<le> 2" by (auto simp: length_split_n1)
  have "Max (insert 0 ?L) = 2 \<longleftrightarrow> 2 \<in> insert 0 ?L"
  proof
    assume "Max (insert 0 ?L) = 2"
    moreover have "Max (insert 0 ?L) \<in> insert 0 ?L" using fin by (intro Max_in) auto
    ultimately show "2 \<in> insert 0 ?L" by metis
  next
    assume "2 \<in> insert 0 ?L"
    then show "Max (insert 0 ?L) = 2"
      using fin le by (intro Max_eqI) auto
  qed
  also have "2 \<in> insert 0 ?L \<longleftrightarrow> (\<exists>v\<in>set vs. sep \<in> set v)"
    by (auto simp: length_split_n1 split: if_splits)
  finally show ?thesis by (simp add: expand_def Let_def fold_max_eq)
qed

lemma set_dropWhile_keep: "\<not> P x \<Longrightarrow> x \<in> set (dropWhile P xs) \<longleftrightarrow> x \<in> set xs"
  by (induction xs) auto

lemma str_strip_keeps: "c \<noteq> q \<Longrightarrow> c \<in> set (str_strip q s) \<longleftrightarrow> c \<in> set s"
  by (simp add: str_strip_def set_dropWhile_keep)

lemma split_first_comma:
  assumes "sep \<in> set v"
  shows "takeWhile (\<lambda>c. c \<noteq> sep) v @ sep # tl (dropWhile (\<lambda>c. c \<noteq> sep) v) = v"
    and "sep \<notin> set (takeWhile (\<lambda>c. c \<noteq> sep) v)"
proof -
  from assms have "dropWhile (\<lambda>c. c \<noteq> sep) v \<noteq> []" by (simp add: dropWhile_eq_Nil_conv)
  moreover have "hd (dropWhile (\<lambda>c. c \<noteq> sep) v) = sep"
    using hd_dropWhile [OF calculation] by simp
  ultimately have "dropWhile (\<lambda>c. c \<noteq> sep) v = sep # tl (dropWhile (\<lambda>c. c \<noteq> sep) v)"
    by (cases "dropWhile (\<lambda>c. c \<noteq> sep) v") auto
  then show "takeWhile (\<lambda>c. c \<noteq> sep) v @ sep # tl (dropWhile (\<lambda>c. c \<noteq> sep) v) = v"
    by (metis takeWhile_dropWhile_id)
  show "sep \<notin> set (takeWhile (\<lambda>c. c \<noteq> sep) v)"
    by (auto dest: set_takeWhileD)
qed

lemma repair_split:
  assumes "repair_triggers df"
    and "\<exists>row\<in>set (rows df). CHR '','' \<in> set (astype_str (cell_at 0 row))"
  shows "repair df =
     Inr \<lparr>columns = [''timestamp'', ''kwh''],
          rows = map (\<lambda>row. let v = str_strip (CHR 0x22) (astype_str (cell_at 0 row))
                            in if CHR '','' \<in> set v
                               then [Some (takeWhile (\<lambda>c. c \<noteq> CHR '','') v),
                                     Some (tl (dropWhile (\<lambda>c. c \<noteq> CHR '','') v))]
                               else [Some v, None]) (rows df)\<rparr>"
proof -
  let ?vs = "map (\<lambda>row. str_strip (CHR 0x22) (astype_str (cell_at 0 row))) (rows df)"
  from assms(2) have "\<exists>v\<in>set ?vs. CHR '','' \<in> set v"
    by (auto simp: str_strip_keeps)
  then have w: "fst (expand (map (split_n1 CHR '','') ?vs)) = 2"
    by (simp only: width_split)
  have r: "snd (expand (map (split_n1 CHR '','') ?vs)) =
      map (\<lambda>row. let v = str_strip (CHR 0x22) (astype_str (cell_at 0 row))
                            in if CHR '','' \<in> set v
                               then [Some (takeWhile (\<lambda>c. c \<noteq> CHR '','') v),
                                     Some (tl (dropWhile (\<lambda>c. c \<noteq> CHR '','') v))]
                               else [Some v, None]) (rows df)"
    using w by (simp add: expand_def Let_def split_n1_def numeral_2_eq_2)
  from w r have e: "expand (map (split_n1 CHR '','') ?vs) =
      (2, map (\<lambda>row. let v = str_strip (CHR 0x22) (astype_str (cell_at 0 row))
                            in if CHR '','' \<in> set v
                               then [Some (takeWhile (\<lambda>c. c \<noteq> CHR '','') v),
                                     Some (tl (dropWhile (\<lambda>c. c \<noteq> CHR '','') v))]
                               else [Some v, None]) (rows df))"
    by (metis prod.collapse)
  show ?thesis
    unfolding repair_def Let_def e using assms(1) by simp
qed

lemma repair_raises:
  assumes "repair_triggers df"
    and "\<not> (\<exists>row\<in>set (rows df). CHR '','' \<in> set (astype_str (cell_at 0 row)))"
  shows "repair df = Inl ''Columns must be same length as key''"
proof -
  let ?vs = "map (\<lambda>row. str_strip (CHR 0x22) (astype_str (cell_at 0 row))) (rows df)"
  from assms(2) have "\<not> (\<exists>v\<in>set ?vs. CHR '','' \<in> set v)"
    by (auto simp: str_strip_keeps)
  then have w: "fst (expand (map (split_n1 CHR '','') ?vs)) \<noteq> 2"
    by (metis width_split)
  then obtain n tbl where e: "expand (map (split_n1 CHR '','') ?vs) = (n, tbl)" and n: "n \<noteq> 2"
    by (metis prod.collapse)
  show ?thesis
    unfolding repair_def Let_def e using assms(1) n by simp
qed

lemma one_column_rejected:
  assumes "read_csv f = Frame df" and "length (columns df) = 1"
    and "\<not> (str_contains ''timestamp'' (hd (columns df)) \<and> str_contains ''kwh'' (hd (columns df)))"
  shows "try_file num f = Inl (''Invalid columns in '' @ name f)"
proof -
  from assms(3) have n: "\<not> repair_triggers df" by (auto simp: repair_triggers_def)
  then have r: "repair df = Inr df" by (simp add: repair_def)
  from assms(2) obtain c where c: "columns df = [c]"
    by (cases "columns df") auto
  then have "invalid_columns df" by (auto simp: invalid_columns_def)
  with r assms(1) show ?thesis by (simp add: try_file_def split: prod.splits)
qed

text \<open>
  C5, as the code has it. The repair is attempted exactly when the frame has a single
  column whose name contains both ``timestamp'' and ``kwh'' (then neither \<open>timestamp\<close>
  nor \<open>kwh\<close> is a column); any other frame is left as it is. When it is attempted and
  at least one value contains a comma, the frame gets the two columns \<open>timestamp\<close> and
  \<open>kwh\<close>: each value, its leading and trailing double quotes dropped, is cut at its
  first comma, and a value without a comma gives the whole value and a missing \<open>kwh\<close>.
  When no value contains a comma (or there is no row), the assignment of line 34 raises.
  A one-column file whose column name does not contain both words is rejected with
  ``Invalid columns in <name>''.
\<close>

theorem single_column_repair:
  "(repair_triggers df \<longleftrightarrow>
      (\<exists>c. columns df = [c] \<and> str_contains ''timestamp'' c \<and> str_contains ''kwh'' c))
   \<and> (repair_triggers df \<longrightarrow>
        ''timestamp'' \<notin> set (columns df) \<and> ''kwh'' \<notin> set (columns df))
   \<and> (\<not> repair_triggers df \<longrightarrow> repair df = Inr df)
   \<and> (repair_triggers df
        \<and> (\<exists>row\<in>set (rows df). CHR '','' \<in> set (astype_str (cell_at 0 row))) \<longrightarrow>
        repair df =
          Inr \<lparr>columns = [''timestamp'', ''kwh''],
               rows = map (\<lambda>row. let v = str_strip (CHR 0x22) (astype_str (cell_at 0 row))
                                 in if CHR '','' \<in> set v
                                    then [Some (takeWhile (\<lambda>c. c \<noteq> CHR '','') v),
                                          Some (tl (dropWhile (\<lambda>c. c \<noteq> CHR '','') v))]
                                    else [Some v, None]) (rows df)\<rparr>)
   \<and> (repair_triggers df
        \<and> \<not> (\<exists>row\<in>set (rows df). CHR '','' \<in> set (astype_str (cell_at 0 row))) \<longrightarrow>
        repair df = Inl ''Columns must be same length as key'')
   \<and> (CHR '','' \<in> set v \<longrightarrow>
        takeWhile (\<lambda>c. c \<noteq> CHR '','') v @ CHR '','' # tl (dropWhile (\<lambda>c. c \<noteq> CHR '','') v) = v
        \<and> CHR '','' \<notin> set (takeWhile (\<lambda>c. c \<noteq> CHR '','') v))
   \<and> (read_csv f = Frame df \<and> length (columns df) = 1
        \<and> \<not> (str_contains ''timestamp'' (hd (columns df))
              \<and> str_contains ''kwh'' (hd (columns df))) \<longrightarrow>
        try_file num f = Inl (''Invalid columns in '' @ name f))"
proof -
  note c1 = repair_triggers_iff [of df]
  have c2: "repair_triggers df \<longrightarrow>
        ''timestamp'' \<notin> set (columns df) \<and> ''kwh'' \<notin> set (columns df)"
    using repair_triggers_columns [of df] by blast
  have c3: "\<not> repair_triggers df \<longrightarrow> repair df = Inr df"
    by (simp add: repair_def)
  have c4: "repair_triggers df
        \<and> (\<exists>row\<in>set (rows df). CHR '','' \<in> set (astype_str (cell_at 0 row))) \<longrightarrow>
        repair df =
          Inr \<lparr>columns = [''timestamp'', ''kwh''],
               rows = map (\<lambda>row. let v = str_strip (CHR 0x22) (astype_str (cell_at 0 row))
                                 in if CHR '','' \<in> set v
                                    then [Some (takeWhile (\<lambda>c. c \<noteq> CHR '','') v),
                                          Some (tl (dropWhile (\<lambda>c. c \<noteq> CHR '','') v))]
                                    else [Some v, None]) (rows df)\<rparr>"
    using repair_split [of df] by (intro impI) (elim conjE)
  have c5: "repair_triggers df
        \<and> \<not> (\<exists>row\<in>set (rows df). CHR '','' \<in> set (astype_str (cell_at 0 row))) \<longrightarrow>
        repair df = Inl ''Columns must be same length as key''"
    using repair_raises [of df] by (intro impI) (elim conjE)
  have c6: "CHR '','' \<in> set v \<longrightarrow>
        takeWhile (\<lambda>c. c \<noteq> CHR '','') v @ CHR '','' # tl (dropWhile (\<lambda>c. c \<noteq> CHR '','') v) = v
        \<and> CHR '','' \<notin> set (takeWhile (\<lambda>c. c \<noteq> CHR '','') v)"
    using split_first_comma [of "CHR '',''" v] by (intro impI conjI)
  have c7: "read_csv f = Frame df \<and> length (columns df) = 1
        \<and> \<not> (str_contains ''timestamp'' (hd (columns df))
              \<and> str_contains ''kwh'' (hd (columns df))) \<longrightarrow>
        try_file num f = Inl (''Invalid columns in '' @ name f)"
    using one_column_rejected [of f df num] by (intro impI) (elim conjE)
  from c1 c2 c3 c4 c5 c6 c7 show ?thesis
    by (intro conjI)
qed

text \<open>
  The quoted value \<open>"2025-01-01T00:00:00,3.5"\<close> gives the timestamp
  \<open>2025-01-01T00:00:00\<close> and the kwh text \<open>3.5\<close>; a file with the single column
  \<open>reading\<close> is rejected.
\<close>

theorem single_column_repair_witness:
  "repair_triggers quoted_frame
   \<and> repair quoted_frame =
       Inr \<lparr>columns = [''timestamp'', ''kwh''],
            rows = [[Some ''2025-01-01T00:00:00'', Some ''3.5''],
                    [Some ''2025-01-02T00:00:00'', None]]\<rparr>
   \<and> \<not> repair_triggers reading_frame
   \<and> try_file decimal reading_file = Inl ''Invalid columns in gym_2025-03.csv''"
proof -
  have t: "repair_triggers quoted_frame" by code_simp
  have c: "\<exists>row\<in>set (rows quoted_frame). CHR '','' \<in> set (astype_str (cell_at 0 row))"
    by code_simp
  have n: "\<not> repair_triggers reading_frame" by code_simp
  have r: "read_csv reading_file = Frame reading_frame \<and> length (columns reading_frame) = 1
        \<and> \<not> (str_contains ''timestamp'' (hd (columns reading_frame))
              \<and> str_contains ''kwh'' (hd (columns reading_frame)))"
    by code_simp
  have nm: "name reading_file = ''gym_2025-03.csv''" by code_simp
  have m: "map (\<lambda>row. let v = str_strip (CHR 0x22) (astype_str (cell_at 0 row))
                                 in if CHR '','' \<in> set v
                                    then [Some (takeWhile (\<lambda>c. c \<noteq> CHR '','') v),
                                          Some (tl (dropWhile (\<lambda>c. c \<noteq> CHR '','') v))]
                                    else [Some v, None]) (rows quoted_frame)
       = [[Some ''2025-01-01T00:00:00'', Some ''3.5''], [Some ''2025-01-02T00:00:00'', None]]"
    by code_simp
  from single_column_repair [of quoted_frame "[]" reading_file decimal] t c
  have 1: "repair quoted_frame =
       Inr \<lparr>columns = [''timestamp'', ''kwh''],
            rows = [[Some ''2025-01-01T00:00:00'', Some ''3.5''],
                    [Some ''2025-01-02T00:00:00'', None]]\<rparr>"
    unfolding m by blast
  from single_column_repair [of reading_frame "[]" reading_file decimal] r
  have 2: "try_file decimal reading_file = Inl (''Invalid columns in '' @ name reading_file)"
    by blast
  from t 1 n 2 show ?thesis by (simp add: nm)
qed

text \<open>
  The claim as the spec words it fails where the repair is attempted on values without
  a comma: no two columns come out, the exception of line 34 is logged by the clause of
  line 51-52 and the file is skipped.
\<close>

theorem repair_without_comma_counterexample:
  "repair_triggers no_comma_frame
   \<and> repair no_comma_frame = Inl ''Columns must be same length as key''
   \<and> try_file decimal no_comma_file =
       Inl ''Error reading lab_2025-03.csv: Columns must be same length as key''"
  by code_simp

section \<open>Aggregation\<close>




lemma set_stamps: "t \<in> set (stamps g) \<longleftrightarrow> (\<exists>r\<in>set g. timestamp r = Some t)"
  by (induction g) (auto simp: stamps_def List.map_filter_simps split: option.splits)

lemma stamps_Nil_iff: "stamps g = [] \<longleftrightarrow> (\<forall>r\<in>set g. timestamp r = None)"
  by (induction g) (auto simp: stamps_def List.map_filter_simps split: option.splits)




text \<open>The labels of the bins laid over one group.\<close>

lemma bins_labels:
  assumes "stamps g \<noteq> []"
  shows "map fst (bins L label freq g) =
     map (\<lambda>k. Min (set (map label (stamps g))) + freq * k)
       [0 .. (Max (set (map label (stamps g))) - Min (set (map label (stamps g)))) div freq]"
  using assms by (simp add: bins_def Let_def comp_def)

lemma bins_distinct:
  assumes "0 < freq"
  shows "distinct (map fst (bins L label freq g))"
proof (cases "stamps g = []")
  case True
  then show ?thesis by (simp add: bins_def)
next
  case False
  have "inj_on (\<lambda>k. a + freq * k) A" for a :: int and A
    using assms by (auto simp: inj_on_def)
  then show ?thesis
    unfolding bins_labels [OF False] by (simp add: distinct_map)
qed

lemma aligned_index:
  fixes first :: int
  assumes "0 < freq" and "l mod freq = first mod freq" and "first \<le> l" and "l \<le> hi"
  shows "\<exists>k\<in>{0 .. (hi - first) div freq}. l = first + freq * k"
proof -
  have "(l - first) mod freq = 0"
    using assms(2) by (metis mod_diff_cong cancel_comm_monoid_add_class.diff_cancel mod_0)
  then have "l = first + freq * ((l - first) div freq)"
    by (metis add.commute diff_add_cancel mult.commute mult_div_mod_eq add.right_neutral)
  moreover have "0 \<le> (l - first) div freq"
    using assms(1,3) by (simp add: pos_imp_zdiv_nonneg_iff)
  moreover have "(l - first) div freq \<le> (hi - first) div freq"
    using assms(1,4) by (intro zdiv_mono1) auto
  ultimately show ?thesis by auto
qed

lemma bins_label_set:
  assumes "0 < freq" and "\<forall>t. label t mod freq = c"
  shows "l \<in> set (map fst (bins L label freq g)) \<longleftrightarrow>
     l mod freq = c \<and> (\<exists>t\<in>set (stamps g). label t \<le> l) \<and> (\<exists>t\<in>set (stamps g). l \<le> label t)"
proof (cases "stamps g = []")
  case True
  then show ?thesis by (simp add: bins_def)
next
  case False
  let ?L = "set (map label (stamps g))"
  let ?first = "Min ?L" and ?last = "Max ?L"
  have fin: "finite ?L" and ne: "?L \<noteq> {}" using False by auto
  have first_in: "?first \<in> ?L" using fin ne by (rule Min_in)
  then have fm: "?first mod freq = c" using assms(2) by auto
  have lo: "?first \<le> l \<longleftrightarrow> (\<exists>t\<in>set (stamps g). label t \<le> l)"
    using Min_le_iff [OF fin ne, of l] by auto
  have hi: "l \<le> ?last \<longleftrightarrow> (\<exists>t\<in>set (stamps g). l \<le> label t)"
    using Max_ge_iff [OF fin ne, of l] by auto
  have "l \<in> set (map fst (bins L label freq g)) \<longleftrightarrow>
      (\<exists>k\<in>{0 .. (?last - ?first) div freq}. l = ?first + freq * k)"
    unfolding bins_labels [OF False] by auto
  also have "\<dots> \<longleftrightarrow> l mod freq = c \<and> ?first \<le> l \<and> l \<le> ?last"
  proof
    assume "\<exists>k\<in>{0 .. (?last - ?first) div freq}. l = ?first + freq * k"
    then obtain k where k: "0 \<le> k" "k \<le> (?last - ?first) div freq" "l = ?first + freq * k"
      by auto
    have "freq * k \<le> freq * ((?last - ?first) div freq)"
      using k(2) assms(1) by (simp add: mult_left_mono)
    also have "\<dots> \<le> ?last - ?first"
      using mult_div_mod_eq [of freq "?last - ?first"] pos_mod_sign [of freq "?last - ?first"]
        assms(1) by linarith
    finally have "l \<le> ?last" using k(3) by simp
    moreover have "?first \<le> l" using k(1,3) assms(1) by simp
    moreover have "l mod freq = c" using k(3) fm by simp
    ultimately show "l mod freq = c \<and> ?first \<le> l \<and> l \<le> ?last" by simp
  next
    assume "l mod freq = c \<and> ?first \<le> l \<and> l \<le> ?last"
    then show "\<exists>k\<in>{0 .. (?last - ?first) div freq}. l = ?first + freq * k"
      using aligned_index [OF assms(1), of l ?first ?last] fm by simp
  qed
  finally show ?thesis using lo hi by simp
qed

lemma bins_rows:
  "bins L label freq g =
     map (\<lambda>l. (l, agg_sum L (present (filter (in_bin label l) g))))
       (map fst (bins L label freq g))"
  by (simp add: bins_def Let_def comp_def)

lemma bins_mem:
  assumes "(l, s) \<in> set (bins L label freq g)"
  shows "s = agg_sum L (present (filter (in_bin label l) g))"
proof -
  from assms have "(l, s) \<in> set (map (\<lambda>l. (l, agg_sum L (present (filter (in_bin label l) g))))
       (map fst (bins L label freq g)))"
    by (simp only: bins_rows [symmetric])
  then show ?thesis by auto
qed

lemma bins_mem_iff:
  "(l, s) \<in> set (bins L label freq g) \<longleftrightarrow>
     l \<in> set (map fst (bins L label freq g))
     \<and> s = agg_sum L (present (filter (in_bin label l) g))"
proof -
  have "(l, s) \<in> set (bins L label freq g) \<longleftrightarrow>
      (l, s) \<in> set (map (\<lambda>l. (l, agg_sum L (present (filter (in_bin label l) g))))
       (map fst (bins L label freq g)))"
    by (simp only: bins_rows [symmetric])
  then show ?thesis by auto
qed






lemma set_buildings: "set (buildings df) = building ` set df"
  by (simp add: buildings_def)

lemma distinct_buildings: "distinct (buildings df)"
  by (simp add: buildings_def)

lemma set_group: "set (group b df) = {r \<in> set df. building r = b}"
  by (auto simp: group_def)

lemma resample_sum_cases:
  "resample_sum L label freq g =
     (if stamps g = [] \<and> no_time_group L \<noteq> None then Inl (the (no_time_group L))
      else Inr (bins L label freq g))"
  by (auto simp: resample_sum_def bins_def split: option.splits)

lemma collect_uniform:
  assumes "\<forall>x\<in>set xs. \<forall>e'. x = Inl e' \<longrightarrow> e' = e"
  shows "collect xs = (if \<exists>x\<in>set xs. isl x then Inl e else Inr (concat (map projr xs)))"
  using assms by (induction xs) (auto split: sum.splits)

text \<open>
  The table of the groups: \<open>resample\<close> raises when the library raises on a group
  without a point in time and there is such a group, and otherwise the table holds the
  bins of every group.
\<close>

lemma groupby_result:
  "groupby_resample_sum L label freq df =
     (if no_time_group L \<noteq> None \<and> (\<exists>b\<in>set (buildings df). stamps (group b df) = [])
      then Inl (the (no_time_group L))
      else Inr (concat (map (\<lambda>b. map (\<lambda>(l, s). (b, l, s)) (bins L label freq (group b df)))
                            (buildings df))))"
proof -
  let ?F = "\<lambda>b. map_sum id (map (\<lambda>(l, s). (b, l, s))) (resample_sum L label freq (group b df))"
  have u: "\<forall>x\<in>set (map ?F (buildings df)). \<forall>e'. x = Inl e' \<longrightarrow> e' = the (no_time_group L)"
    by (auto simp: resample_sum_cases split: if_splits)
  have i: "(\<exists>x\<in>set (map ?F (buildings df)). isl x) \<longleftrightarrow>
      no_time_group L \<noteq> None \<and> (\<exists>b\<in>set (buildings df). stamps (group b df) = [])"
    by (auto simp: resample_sum_cases split: if_splits)
  have p: "concat (map projr (map ?F (buildings df))) =
      concat (map (\<lambda>b. map (\<lambda>(l, s). (b, l, s)) (bins L label freq (group b df))) (buildings df))"
    if "\<not> (no_time_group L \<noteq> None \<and> (\<exists>b\<in>set (buildings df). stamps (group b df) = []))"
    using that
    by (intro arg_cong [where f = concat]) (auto simp: resample_sum_cases)
  show ?thesis
    unfolding groupby_resample_sum_def collect_uniform [OF u] i using p by simp
qed

lemma no_time_group_iff:
  "(\<exists>b\<in>set (buildings df). stamps (group b df) = []) \<longleftrightarrow>
     (\<exists>r\<in>set df. \<forall>r'\<in>set df. building r' = building r \<longrightarrow> timestamp r' = None)"
  by (auto simp: set_buildings stamps_Nil_iff set_group)

lemma groupby_Inl_iff:
  "groupby_resample_sum L label freq df = Inl e \<longleftrightarrow>
     no_time_group L = Some e
     \<and> (\<exists>r\<in>set df. \<forall>r'\<in>set df. building r' = building r \<longrightarrow> timestamp r' = None)"
  unfolding groupby_result no_time_group_iff [symmetric] by auto

lemma groupby_Inr:
  assumes "groupby_resample_sum L label freq df = Inr tbl"
  shows "tbl = concat (map (\<lambda>b. map (\<lambda>(l, s). (b, l, s)) (bins L label freq (group b df)))
                           (buildings df))"
  using assms unfolding groupby_result by (simp split: if_splits)

lemma groupby_mem:
  assumes "groupby_resample_sum L label freq df = Inr tbl"
  shows "(b, l, s) \<in> set tbl \<longleftrightarrow>
     b \<in> building ` set df \<and> (l, s) \<in> set (bins L label freq (group b df))"
  unfolding groupby_Inr [OF assms] by (auto simp: set_buildings)



lemma distinct_tagged:
  assumes "distinct bs" and "\<forall>b\<in>set bs. distinct (map fst (R b))"
  shows "distinct (map (\<lambda>(b, l, s). (b, l))
     (concat (map (\<lambda>b'. map (\<lambda>(l, s). (b', l, s)) (R b')) bs)))"
  using assms
proof (induction bs)
  case Nil
  show ?case by simp
next
  case (Cons a bs)
  have m: "map (\<lambda>(b, l, s). (b, l)) (map (Pair a) xs) = map (Pair a) (map fst xs)"
    for xs
    by (induction xs) auto
  have "distinct (map (Pair a) (map fst (R a)))"
    using Cons.prems(2) by (simp add: distinct_map inj_on_def)
  moreover have "fst x \<in> set bs"
    if "x \<in> set (concat (map (\<lambda>b'. map (\<lambda>(l, s). (b', l, s)) (R b')) bs))" for x
    using that by auto
  ultimately show ?case
    using Cons by (auto simp: m simp del: map_map)
qed

lemma groupby_distinct:
  assumes "0 < freq" and "groupby_resample_sum L label freq df = Inr tbl"
  shows "distinct (map (\<lambda>(b, l, s). (b, l)) tbl)"
  unfolding groupby_Inr [OF assms(2)]
  by (rule distinct_tagged [OF distinct_buildings]) (simp add: bins_distinct [OF assms(1)])

lemma group_in_bin:
  "filter (in_bin label l) (group b df) = filter (\<lambda>r. building r = b \<and> in_bin label l r) df"
  by (simp add: group_def)

lemma stamps_group_ex:
  "(\<exists>t\<in>set (stamps (group b df)). P t) \<longleftrightarrow>
     (\<exists>r\<in>set df. \<exists>t. building r = b \<and> timestamp r = Some t \<and> P t)"
proof
  assume "\<exists>t\<in>set (stamps (group b df)). P t"
  then obtain t where "t \<in> set (stamps (group b df))" "P t" by blast
  then obtain r where "r \<in> set (group b df)" "timestamp r = Some t"
    by (auto simp: set_stamps)
  with \<open>P t\<close> show "\<exists>r\<in>set df. \<exists>t. building r = b \<and> timestamp r = Some t \<and> P t"
    by (auto simp: set_group)
next
  assume "\<exists>r\<in>set df. \<exists>t. building r = b \<and> timestamp r = Some t \<and> P t"
  then obtain r t where "r \<in> set df" "building r = b" "timestamp r = Some t" "P t" by blast
  then have "r \<in> set (group b df)" by (simp add: set_group)
  with \<open>timestamp r = Some t\<close> have "t \<in> set (stamps (group b df))"
    by (auto simp: set_stamps)
  with \<open>P t\<close> show "\<exists>t\<in>set (stamps (group b df)). P t" by blast
qed

text \<open>A row of the table: the bin of a building, with the sum of its present values.\<close>

lemma groupby_row_iff:
  assumes "0 < freq" and "\<forall>t. label t mod freq = c"
    and "groupby_resample_sum L label freq df = Inr tbl"
  shows "(b, l, s) \<in> set tbl \<longleftrightarrow>
     l mod freq = c
     \<and> (\<exists>r\<in>set df. \<exists>t. building r = b \<and> timestamp r = Some t \<and> label t \<le> l)
     \<and> (\<exists>r\<in>set df. \<exists>t. building r = b \<and> timestamp r = Some t \<and> l \<le> label t)
     \<and> s = agg_sum L (present (filter (\<lambda>r. building r = b \<and> in_bin label l r) df))"
proof -
  have lo: "(\<exists>t\<in>set (stamps (group b df)). label t \<le> l) \<longleftrightarrow>
      (\<exists>r\<in>set df. \<exists>t. building r = b \<and> timestamp r = Some t \<and> label t \<le> l)"
    by (rule stamps_group_ex)
  have hi: "(\<exists>t\<in>set (stamps (group b df)). l \<le> label t) \<longleftrightarrow>
      (\<exists>r\<in>set df. \<exists>t. building r = b \<and> timestamp r = Some t \<and> l \<le> label t)"
    by (rule stamps_group_ex)
  have "(b, l, s) \<in> set tbl \<longleftrightarrow>
      b \<in> building ` set df \<and> l \<in> set (map fst (bins L label freq (group b df)))
      \<and> s = agg_sum L (present (filter (in_bin label l) (group b df)))"
    unfolding groupby_mem [OF assms(3)] bins_mem_iff ..
  also have "\<dots> \<longleftrightarrow> b \<in> building ` set df \<and> l mod freq = c
     \<and> (\<exists>r\<in>set df. \<exists>t. building r = b \<and> timestamp r = Some t \<and> label t \<le> l)
     \<and> (\<exists>r\<in>set df. \<exists>t. building r = b \<and> timestamp r = Some t \<and> l \<le> label t)
     \<and> s = agg_sum L (present (filter (\<lambda>r. building r = b \<and> in_bin label l r) df))"
    unfolding bins_label_set [OF assms(1,2)] lo hi group_in_bin by blast
  finally show ?thesis by auto
qed

lemma seconds_per_day_pos: "0 < seconds_per_day"
  by (simp add: seconds_per_day_def)


lemma label_D_mod: "label_D t mod seconds_per_day = 0"
  by (simp add: label_D_def)

lemma label_D_le: "label_D t \<le> d * seconds_per_day \<longleftrightarrow> day_of t \<le> d"
  using seconds_per_day_pos by (simp add: label_D_def)

lemma label_D_ge: "d * seconds_per_day \<le> label_D t \<longleftrightarrow> d \<le> day_of t"
  using seconds_per_day_pos by (simp add: label_D_def)

lemma mod7_shift: "(7 - ((d::int) + 3) mod 7) mod 7 = (4 - d) mod 7"
proof -
  have "(7 - (d + 3) mod 7) mod 7 = (7 - (d + 3)) mod 7"
    by (rule mod_diff_right_eq)
  also have "7 - (d + 3) = 4 - d" by simp
  finally show ?thesis .
qed

lemma mod7_monday: "((d::int) + (4 - d) mod 7) mod 7 = 4"
proof -
  have "(d + (4 - d) mod 7) mod 7 = (d + (4 - d)) mod 7"
    by (rule mod_add_right_eq)
  then show ?thesis by simp
qed

lemma label_W_MON_eq: "label_W_MON t = (day_of t + (4 - day_of t) mod 7) * seconds_per_day"
proof -
  have "(7 - (day_of t + 3) mod 7) mod 7 = (4 - day_of t) mod 7"
    by (rule mod7_shift)
  then show ?thesis by (simp add: label_W_MON_def weekday_def)
qed


lemma daily_row_iff:
  assumes "calculate_daily_totals L df = Inr tbl"
  shows "(\<exists>s. (b, l, s) \<in> set tbl) \<longleftrightarrow>
     (\<exists>d. l = d * seconds_per_day
        \<and> (\<exists>r\<in>set df. \<exists>t. building r = b \<and> timestamp r = Some t \<and> day_of t \<le> d)
        \<and> (\<exists>r\<in>set df. \<exists>t. building r = b \<and> timestamp r = Some t \<and> d \<le> day_of t))"
proof -
  have al: "\<forall>t. label_D t mod seconds_per_day = 0" by (simp add: label_D_mod)
  from assms have g: "groupby_resample_sum L label_D seconds_per_day df = Inr tbl"
    by (simp add: calculate_daily_totals_def)
  have "(\<exists>s. (b, l, s) \<in> set tbl) \<longleftrightarrow>
      l mod seconds_per_day = 0
      \<and> (\<exists>r\<in>set df. \<exists>t. building r = b \<and> timestamp r = Some t \<and> label_D t \<le> l)
      \<and> (\<exists>r\<in>set df. \<exists>t. building r = b \<and> timestamp r = Some t \<and> l \<le> label_D t)"
    unfolding groupby_row_iff [OF seconds_per_day_pos al g] by auto
  also have "\<dots> \<longleftrightarrow> (\<exists>d. l = d * seconds_per_day
        \<and> (\<exists>r\<in>set df. \<exists>t. building r = b \<and> timestamp r = Some t \<and> day_of t \<le> d)
        \<and> (\<exists>r\<in>set df. \<exists>t. building r = b \<and> timestamp r = Some t \<and> d \<le> day_of t))"
  proof
    assume h: "l mod seconds_per_day = 0
      \<and> (\<exists>r\<in>set df. \<exists>t. building r = b \<and> timestamp r = Some t \<and> label_D t \<le> l)
      \<and> (\<exists>r\<in>set df. \<exists>t. building r = b \<and> timestamp r = Some t \<and> l \<le> label_D t)"
    then obtain d where d: "l = d * seconds_per_day"
      by (metis mod_0_imp_dvd dvd_def mult.commute)
    from h show "\<exists>d. l = d * seconds_per_day
        \<and> (\<exists>r\<in>set df. \<exists>t. building r = b \<and> timestamp r = Some t \<and> day_of t \<le> d)
        \<and> (\<exists>r\<in>set df. \<exists>t. building r = b \<and> timestamp r = Some t \<and> d \<le> day_of t)"
      unfolding d label_D_le label_D_ge by (intro exI [of _ d]) simp
  next
    assume "\<exists>d. l = d * seconds_per_day
        \<and> (\<exists>r\<in>set df. \<exists>t. building r = b \<and> timestamp r = Some t \<and> day_of t \<le> d)
        \<and> (\<exists>r\<in>set df. \<exists>t. building r = b \<and> timestamp r = Some t \<and> d \<le> day_of t)"
    then obtain d where d: "l = d * seconds_per_day"
      and lo: "\<exists>r\<in>set df. \<exists>t. building r = b \<and> timestamp r = Some t \<and> day_of t \<le> d"
      and hi: "\<exists>r\<in>set df. \<exists>t. building r = b \<and> timestamp r = Some t \<and> d \<le> day_of t"
      by blast
    show "l mod seconds_per_day = 0
      \<and> (\<exists>r\<in>set df. \<exists>t. building r = b \<and> timestamp r = Some t \<and> label_D t \<le> l)
      \<and> (\<exists>r\<in>set df. \<exists>t. building r = b \<and> timestamp r = Some t \<and> l \<le> label_D t)"
      unfolding d label_D_le label_D_ge using lo hi by simp
  qed
  finally show ?thesis .
qed

lemma groupby_row_sum:
  assumes "groupby_resample_sum L label freq df = Inr tbl" and "(b, l, s) \<in> set tbl"
  shows "s = agg_sum L (present (filter (\<lambda>r. building r = b \<and> in_bin label l r) df))"
proof -
  from assms have "(l, s) \<in> set (bins L label freq (group b df))"
    by (simp add: groupby_mem)
  then have "s = agg_sum L (present (filter (in_bin label l) (group b df)))"
    by (rule bins_mem)
  then show ?thesis by (simp only: group_in_bin)
qed

text \<open>
  C1, as the code has it. A reading whose timestamp is missing falls in no day. The
  daily totals raise exactly when the library raises on a group without a point in time
  and some building has no reading with a timestamp. Otherwise the table has a row for
  a building and a day exactly when the day lies between the day of the building's
  first reading and the day of its last one (readings with a timestamp), whether or not
  a reading falls on the day itself; no two rows share building and day; the value of a
  row is the sum of the present values of the building's readings of that day, which is
  0 for a day without a reading; and every reading with a timestamp has its row.
\<close>

theorem daily_totals_rows:
  "(calculate_daily_totals L df = Inl e \<longleftrightarrow>
      no_time_group L = Some e
      \<and> (\<exists>r\<in>set df. \<forall>r'\<in>set df. building r' = building r \<longrightarrow> timestamp r' = None))
   \<and> (calculate_daily_totals L df = Inr tbl \<longrightarrow>
        distinct (map (\<lambda>(b, l, s). (b, l)) tbl)
        \<and> ((\<exists>s. (b, l, s) \<in> set tbl) \<longleftrightarrow>
             (\<exists>d. l = d * seconds_per_day
                \<and> (\<exists>r\<in>set df. \<exists>t. building r = b \<and> timestamp r = Some t \<and> day_of t \<le> d)
                \<and> (\<exists>r\<in>set df. \<exists>t. building r = b \<and> timestamp r = Some t \<and> d \<le> day_of t)))
        \<and> (\<forall>s. (b, l, s) \<in> set tbl \<longrightarrow>
             s = agg_sum L (present (filter (\<lambda>r. building r = b \<and> in_bin label_D l r) df)))
        \<and> (\<forall>r\<in>set df. \<forall>t. timestamp r = Some t \<longrightarrow>
             (\<exists>s. (building r, label_D t, s) \<in> set tbl)))"
proof -
  have 1: "calculate_daily_totals L df = Inl e \<longleftrightarrow>
      no_time_group L = Some e
      \<and> (\<exists>r\<in>set df. \<forall>r'\<in>set df. building r' = building r \<longrightarrow> timestamp r' = None)"
    unfolding calculate_daily_totals_def by (rule groupby_Inl_iff)
  have 2: "calculate_daily_totals L df = Inr tbl \<longrightarrow>
        distinct (map (\<lambda>(b, l, s). (b, l)) tbl)
        \<and> ((\<exists>s. (b, l, s) \<in> set tbl) \<longleftrightarrow>
             (\<exists>d. l = d * seconds_per_day
                \<and> (\<exists>r\<in>set df. \<exists>t. building r = b \<and> timestamp r = Some t \<and> day_of t \<le> d)
                \<and> (\<exists>r\<in>set df. \<exists>t. building r = b \<and> timestamp r = Some t \<and> d \<le> day_of t)))
        \<and> (\<forall>s. (b, l, s) \<in> set tbl \<longrightarrow>
             s = agg_sum L (present (filter (\<lambda>r. building r = b \<and> in_bin label_D l r) df)))
        \<and> (\<forall>r\<in>set df. \<forall>t. timestamp r = Some t \<longrightarrow>
             (\<exists>s. (building r, label_D t, s) \<in> set tbl))"
  proof (intro impI)
    assume t: "calculate_daily_totals L df = Inr tbl"
    from t have g: "groupby_resample_sum L label_D seconds_per_day df = Inr tbl"
      by (simp add: calculate_daily_totals_def)
    have a: "distinct (map (\<lambda>(b, l, s). (b, l)) tbl)"
      by (rule groupby_distinct [OF seconds_per_day_pos g])
    note b = daily_row_iff [OF t, of b l]
    have c: "\<forall>s. (b, l, s) \<in> set tbl \<longrightarrow>
             s = agg_sum L (present (filter (\<lambda>r. building r = b \<and> in_bin label_D l r) df))"
      using groupby_row_sum [OF g] by blast
    have d: "\<forall>r\<in>set df. \<forall>t. timestamp r = Some t \<longrightarrow>
             (\<exists>s. (building r, label_D t, s) \<in> set tbl)"
    proof (intro ballI allI impI)
      fix r t' assume r: "r \<in> set df" and ts: "timestamp r = Some t'"
      have "\<exists>d. label_D t' = d * seconds_per_day
        \<and> (\<exists>r'\<in>set df. \<exists>t. building r' = building r \<and> timestamp r' = Some t \<and> day_of t \<le> d)
        \<and> (\<exists>r'\<in>set df. \<exists>t. building r' = building r \<and> timestamp r' = Some t \<and> d \<le> day_of t)"
        using r ts by (intro exI [of _ "day_of t'"]) (auto simp: label_D_def)
      then show "\<exists>s. (building r, label_D t', s) \<in> set tbl"
        by (simp only: daily_row_iff [OF t])
    qed
    from a b c d show "distinct (map (\<lambda>(b, l, s). (b, l)) tbl)
        \<and> ((\<exists>s. (b, l, s) \<in> set tbl) \<longleftrightarrow>
             (\<exists>d. l = d * seconds_per_day
                \<and> (\<exists>r\<in>set df. \<exists>t. building r = b \<and> timestamp r = Some t \<and> day_of t \<le> d)
                \<and> (\<exists>r\<in>set df. \<exists>t. building r = b \<and> timestamp r = Some t \<and> d \<le> day_of t)))
        \<and> (\<forall>s. (b, l, s) \<in> set tbl \<longrightarrow>
             s = agg_sum L (present (filter (\<lambda>r. building r = b \<and> in_bin label_D l r) df)))
        \<and> (\<forall>r\<in>set df. \<forall>t. timestamp r = Some t \<longrightarrow>
             (\<exists>s. (building r, label_D t, s) \<in> set tbl))"
      by (intro conjI)
  qed
  from 1 2 show ?thesis by (rule conjI)
qed

lemma daily_gap_readings:
  "calculate_daily_totals exact_library gap_readings =
     Inr [(''admin'', 1735689600, 10), (''admin'', 1735776000, 0), (''admin'', 1735862400, 20)]"
  by code_simp

theorem daily_totals_rows_witness:
  "calculate_daily_totals exact_library gap_readings =
     Inr [(''admin'', 1735689600, 10), (''admin'', 1735776000, 0), (''admin'', 1735862400, 20)]
   \<and> (\<exists>d. 1735776000 = d * seconds_per_day
           \<and> (\<exists>r\<in>set gap_readings. \<exists>t. building r = ''admin'' \<and> timestamp r = Some t \<and> day_of t \<le> d)
           \<and> (\<exists>r\<in>set gap_readings. \<exists>t. building r = ''admin'' \<and> timestamp r = Some t \<and> d \<le> day_of t))
   \<and> \<not> (\<exists>d. 1735948800 = d * seconds_per_day
           \<and> (\<exists>r\<in>set gap_readings. \<exists>t. building r = ''admin'' \<and> timestamp r = Some t \<and> day_of t \<le> d)
           \<and> (\<exists>r\<in>set gap_readings. \<exists>t. building r = ''admin'' \<and> timestamp r = Some t \<and> d \<le> day_of t))
   \<and> calculate_daily_totals exact_library nat_readings = Inr [(''admin'', 1735689600, 3 / 2)]"
proof -
  note t = daily_totals_rows [of exact_library gap_readings _
      "[(''admin'', 1735689600, 10), (''admin'', 1735776000, 0), (''admin'', 1735862400, 20)]"]
  have in_tbl: "\<exists>s. (''admin'', 1735776000, s) \<in>
      set [(''admin'', 1735689600, 10::real), (''admin'', 1735776000::int, 0), (''admin'', 1735862400, 20)]"
    by auto
  have out_tbl: "\<not> (\<exists>s. (''admin'', 1735948800, s) \<in>
      set [(''admin'', 1735689600, 10::real), (''admin'', 1735776000::int, 0), (''admin'', 1735862400, 20)])"
    by auto
  from t [of _ "''admin''" 1735776000] daily_gap_readings in_tbl
  have 1: "\<exists>d. 1735776000 = d * seconds_per_day
           \<and> (\<exists>r\<in>set gap_readings. \<exists>t. building r = ''admin'' \<and> timestamp r = Some t \<and> day_of t \<le> d)
           \<and> (\<exists>r\<in>set gap_readings. \<exists>t. building r = ''admin'' \<and> timestamp r = Some t \<and> d \<le> day_of t)"
    by blast
  from t [of _ "''admin''" 1735948800] daily_gap_readings out_tbl
  have 2: "\<not> (\<exists>d. 1735948800 = d * seconds_per_day
           \<and> (\<exists>r\<in>set gap_readings. \<exists>t. building r = ''admin'' \<and> timestamp r = Some t \<and> day_of t \<le> d)
           \<and> (\<exists>r\<in>set gap_readings. \<exists>t. building r = ''admin'' \<and> timestamp r = Some t \<and> d \<le> day_of t))"
    by blast
  have 3: "calculate_daily_totals exact_library nat_readings = Inr [(''admin'', 1735689600, 3 / 2)]"
    by code_simp
  from daily_gap_readings 1 2 3 show ?thesis by (intro conjI)
qed

text \<open>
  The claim as the spec words it fails on two readings of one building two days apart:
  the day in between, on which no reading falls, has a row, with the sum 0.
\<close>

theorem gap_day_counterexample:
  "calculate_daily_totals exact_library gap_readings =
     Inr [(''admin'', 1735689600, 10), (''admin'', 1735776000, 0), (''admin'', 1735862400, 20)]
   \<and> filter (\<lambda>r. building r = ''admin'' \<and> in_bin label_D 1735776000 r) gap_readings = []"
  by code_simp














lemma present_all_missing:
  assumes "\<forall>r\<in>set g. kwh r = None"
  shows "present g = []"
  using assms by (induction g) (auto simp: present_def List.map_filter_simps)

lemma filter_summary:
  "filter (\<lambda>row. sm_building row = b) (building_wise_summary L df) =
     (if b \<in> building ` set df
      then [\<lparr>sm_building = b, mean = agg_mean L (present (group b df)),
             min_kwh = agg_min (present (group b df)),
             max_kwh = agg_max (present (group b df)),
             total = agg_sum L (present (group b df))\<rparr>]
      else [])"
proof -
  have "filter (\<lambda>row. sm_building row = b) (map F bs) = (if b \<in> set bs then [F b] else [])"
    if "distinct bs" and "\<forall>x. sm_building (F x) = x" for bs and F :: "string \<Rightarrow> summary_row"
    using that by (induction bs) auto
  from this [OF distinct_buildings, of "\<lambda>b. \<lparr>sm_building = b, mean = agg_mean L (present (group b df)),
             min_kwh = agg_min (present (group b df)),
             max_kwh = agg_max (present (group b df)),
             total = agg_sum L (present (group b df))\<rparr>" df]
  show ?thesis
    by (simp add: building_wise_summary_def Let_def set_buildings)
qed

text \<open>
  C10. For a building of the table all of whose \<open>kwh\<close> values are missing, the summary
  has exactly one row, with mean, min and max missing (NaN) and total 0.
\<close>

theorem all_missing_building_summary:
  assumes "b \<in> building ` set df" and "\<forall>r\<in>set df. building r = b \<longrightarrow> kwh r = None"
  shows "filter (\<lambda>row. sm_building row = b) (building_wise_summary L df) =
     [\<lparr>sm_building = b, mean = None, min_kwh = None, max_kwh = None, total = 0\<rparr>]"
proof -
  from assms(2) have "present (group b df) = []"
    by (intro present_all_missing) (simp add: set_group)
  then show ?thesis
    using assms(1) by (simp add: filter_summary agg_sum_def agg_mean_def agg_min_def agg_max_def)
qed

theorem all_missing_building_summary_witness:
  "''hostel'' \<in> building ` set mixed_readings
   \<and> list_all (\<lambda>r. building r \<noteq> ''hostel'' \<or> kwh r = None) mixed_readings
   \<and> filter (\<lambda>row. sm_building row = ''hostel'') (building_wise_summary exact_library mixed_readings) =
       [\<lparr>sm_building = ''hostel'', mean = None, min_kwh = None, max_kwh = None, total = 0\<rparr>]"
proof -
  have a: "''hostel'' \<in> building ` set mixed_readings" by code_simp
  have b: "list_all (\<lambda>r. building r \<noteq> ''hostel'' \<or> kwh r = None) mixed_readings" by code_simp
  then have c: "\<forall>r\<in>set mixed_readings. building r = ''hostel'' \<longrightarrow> kwh r = None"
    by (auto simp: list_all_iff)
  from all_missing_building_summary [OF a c] a b show ?thesis by blast
qed














section \<open>Timestamp normalisation\<close>

lemma to_datetime_rows_Inl_iff:
  "(\<exists>e. to_datetime_rows dt col df = Inl e) \<longleftrightarrow>
     (\<exists>r\<in>set df. \<exists>s. timestamp r = Some s \<and> dt col s = Rejected)"
  by (induction df)
    (auto simp: to_datetime_def split: sum.splits option.splits datetime_text.splits)

lemma to_datetime_rows_Inr:
  "to_datetime_rows dt col df = Inr out \<Longrightarrow>
     out = map (\<lambda>r. \<lparr>timestamp =
                        (case timestamp r of
                           None \<Rightarrow> None
                         | Some s \<Rightarrow> (case dt col s of Point t \<Rightarrow> Some t | _ \<Rightarrow> None)),
                      kwh = kwh r, building = building r, month = month r\<rparr>) df"
  by (induction df arbitrary: out)
    (auto simp: to_datetime_def split: sum.splits option.splits datetime_text.splits)

lemma to_datetime_rows_error:
  "to_datetime_rows dt col df = Inl e \<Longrightarrow>
     \<exists>pre r post s. df = pre @ r # post \<and> timestamp r = Some s \<and> dt col s = Rejected
        \<and> e = ValueError s
        \<and> (\<forall>r'\<in>set pre. \<forall>s'. timestamp r' = Some s' \<longrightarrow> dt col s' \<noteq> Rejected)"
proof (induction df)
  case Nil
  then show ?case by simp
next
  case (Cons a df)
  show ?case
  proof (cases "to_datetime dt col (timestamp a)")
    case (Inl e')
    with Cons.prems have e: "e' = e" by simp
    from Inl obtain s where "timestamp a = Some s" "dt col s = Rejected" "e' = ValueError s"
      by (auto simp: to_datetime_def split: option.splits datetime_text.splits)
    with e have "a # df = [] @ a # df \<and> timestamp a = Some s \<and> dt col s = Rejected
        \<and> e = ValueError s
        \<and> (\<forall>r'\<in>set []. \<forall>s'. timestamp r' = Some s' \<longrightarrow> dt col s' \<noteq> Rejected)"
      by simp
    then show ?thesis by blast
  next
    case (Inr t)
    then have ok: "\<forall>s'. timestamp a = Some s' \<longrightarrow> dt col s' \<noteq> Rejected"
      by (auto simp: to_datetime_def split: option.splits datetime_text.splits)
    from Inr Cons.prems have "to_datetime_rows dt col df = Inl e"
      by (simp split: sum.splits)
    from Cons.IH [OF this] obtain pre r post s where
      h: "df = pre @ r # post" "timestamp r = Some s" "dt col s = Rejected" "e = ValueError s"
        "\<forall>r'\<in>set pre. \<forall>s'. timestamp r' = Some s' \<longrightarrow> dt col s' \<noteq> Rejected"
      by blast
    from h ok have "a # df = (a # pre) @ r # post \<and> timestamp r = Some s \<and> dt col s = Rejected
        \<and> e = ValueError s
        \<and> (\<forall>r'\<in>set (a # pre). \<forall>s'. timestamp r' = Some s' \<longrightarrow> dt col s' \<noteq> Rejected)"
      by simp
    then show ?thesis by blast
  qed
qed

lemma mset_sort_values_timestamp: "mset (sort_values_timestamp df) = mset df"
proof -
  have "mset (filter (\<lambda>r. timestamp r \<noteq> None) df) + mset (filter (\<lambda>r. timestamp r = None) df)
      = mset df"
    by (induction df) auto
  then show ?thesis by (simp add: sort_values_timestamp_def)
qed

lemma sort_values_timestamp_sorted:
  "\<exists>ts n. map timestamp (sort_values_timestamp df) = map Some ts @ replicate n None \<and> sorted ts"
proof -
  let ?k = "\<lambda>r::int option reading. case timestamp r of None \<Rightarrow> 0 | Some t \<Rightarrow> t"
  let ?ys = "sort_key ?k (filter (\<lambda>r. timestamp r \<noteq> None) df)"
  let ?zs = "filter (\<lambda>r. timestamp r = None) df"
  have "\<forall>r\<in>set ?ys. timestamp r = Some (?k r)" by auto
  then have a: "map timestamp ?ys = map Some (map ?k ?ys)" by (simp add: comp_def)
  have b: "map timestamp ?zs = replicate (length ?zs) None"
    by (induction df) auto
  have c: "sorted (map ?k ?ys)" by (rule sorted_sort_key)
  have "map timestamp (sort_values_timestamp df) = map Some (map ?k ?ys) @ replicate (length ?zs) None"
    unfolding sort_values_timestamp_def map_append a b ..
  with c show ?thesis by blast
qed

text \<open>
  C3, as the code has it. \<open>preprocess\<close> raises exactly when the library rejects the
  timestamp text of some row, and the error is that of the first such text: the run
  ends there, no missing value is put in its place. The missing value (NaT) is the
  result for an empty cell and for a text the library reads as missing, such as the
  empty text. When no text is rejected, the result holds the rows of the input with
  their timestamps converted, in ascending order of time, the rows without a timestamp
  last.
\<close>

theorem unparseable_timestamp_raises:
  "((\<exists>e. preprocess dt df = Inl e) \<longleftrightarrow>
      (\<exists>r\<in>set df. \<exists>s. timestamp r = Some s \<and> dt (column_texts df) s = Rejected))
   \<and> (\<forall>e. preprocess dt df = Inl e \<longrightarrow>
        (\<exists>pre r post s. df = pre @ r # post \<and> timestamp r = Some s
           \<and> dt (column_texts df) s = Rejected \<and> e = ValueError s
           \<and> (\<forall>r'\<in>set pre. \<forall>s'. timestamp r' = Some s' \<longrightarrow>
                 dt (column_texts df) s' \<noteq> Rejected)))
   \<and> (\<forall>out. preprocess dt df = Inr out \<longrightarrow>
        mset out =
          mset (map (\<lambda>r. \<lparr>timestamp =
                             (case timestamp r of
                                None \<Rightarrow> None
                              | Some s \<Rightarrow>
                                  (case dt (column_texts df) s of Point t \<Rightarrow> Some t | _ \<Rightarrow> None)),
                           kwh = kwh r, building = building r, month = month r\<rparr>) df)
        \<and> (\<exists>ts n. map timestamp out = map Some ts @ replicate n None \<and> sorted ts))"
proof -
  let ?col = "column_texts df"
  have 1: "(\<exists>e. preprocess dt df = Inl e) \<longleftrightarrow>
      (\<exists>r\<in>set df. \<exists>s. timestamp r = Some s \<and> dt ?col s = Rejected)"
    using to_datetime_rows_Inl_iff [of dt ?col df]
    by (cases "to_datetime_rows dt ?col df") (auto simp: preprocess_def)
  have 2: "\<forall>e. preprocess dt df = Inl e \<longrightarrow>
        (\<exists>pre r post s. df = pre @ r # post \<and> timestamp r = Some s
           \<and> dt ?col s = Rejected \<and> e = ValueError s
           \<and> (\<forall>r'\<in>set pre. \<forall>s'. timestamp r' = Some s' \<longrightarrow> dt ?col s' \<noteq> Rejected))"
  proof (intro allI impI)
    fix e assume "preprocess dt df = Inl e"
    then have "to_datetime_rows dt ?col df = Inl e"
      by (cases "to_datetime_rows dt ?col df") (auto simp: preprocess_def)
    then show "\<exists>pre r post s. df = pre @ r # post \<and> timestamp r = Some s
           \<and> dt ?col s = Rejected \<and> e = ValueError s
           \<and> (\<forall>r'\<in>set pre. \<forall>s'. timestamp r' = Some s' \<longrightarrow> dt ?col s' \<noteq> Rejected)"
      by (rule to_datetime_rows_error)
  qed
  have 3: "\<forall>out. preprocess dt df = Inr out \<longrightarrow>
        mset out =
          mset (map (\<lambda>r. \<lparr>timestamp =
                             (case timestamp r of
                                None \<Rightarrow> None
                              | Some s \<Rightarrow> (case dt ?col s of Point t \<Rightarrow> Some t | _ \<Rightarrow> None)),
                           kwh = kwh r, building = building r, month = month r\<rparr>) df)
        \<and> (\<exists>ts n. map timestamp out = map Some ts @ replicate n None \<and> sorted ts)"
  proof (intro allI impI)
    fix out assume "preprocess dt df = Inr out"
    then obtain df' where d: "to_datetime_rows dt ?col df = Inr df'"
      and o: "out = sort_values_timestamp df'"
      by (cases "to_datetime_rows dt ?col df") (auto simp: preprocess_def)
    from to_datetime_rows_Inr [OF d] o
    show "mset out =
          mset (map (\<lambda>r. \<lparr>timestamp =
                             (case timestamp r of
                                None \<Rightarrow> None
                              | Some s \<Rightarrow> (case dt ?col s of Point t \<Rightarrow> Some t | _ \<Rightarrow> None)),
                           kwh = kwh r, building = building r, month = month r\<rparr>) df)
        \<and> (\<exists>ts n. map timestamp out = map Some ts @ replicate n None \<and> sorted ts)"
      using sort_values_timestamp_sorted [of df'] by (simp only: mset_sort_values_timestamp)
  qed
  from 1 2 3 show ?thesis by (intro conjI)
qed

lemma preprocess_raw_rows:
  "preprocess iso_reader raw_rows =
     Inr [\<lparr>timestamp = Some 1735689600, kwh = Some 10, building = ''admin'', month = ''2025-01''\<rparr>,
          \<lparr>timestamp = Some 1735885800, kwh = Some 2, building = ''admin'', month = ''2025-01''\<rparr>,
          \<lparr>timestamp = None, kwh = Some 5, building = ''admin'', month = ''2025-01''\<rparr>,
          \<lparr>timestamp = None, kwh = Some 7, building = ''admin'', month = ''2025-01''\<rparr>]"
  by code_simp

text \<open>
  A table with a text that is no date, a table with a text in another format than the
  first text of its column, and a table with an empty cell and an empty text.
\<close>

theorem unparseable_timestamp_raises_witness:
  "(\<exists>e. preprocess iso_reader bad_timestamp_rows = Inl e)
   \<and> list_ex (\<lambda>r. timestamp r = Some ''not a timestamp'') bad_timestamp_rows
   \<and> iso_reader (column_texts bad_timestamp_rows) ''not a timestamp'' = Rejected
   \<and> (\<exists>e. preprocess iso_reader mixed_format_rows = Inl e)
   \<and> list_ex (\<lambda>r. timestamp r = Some ''2025-01-01'') mixed_format_rows
   \<and> iso_reader (column_texts mixed_format_rows) ''2025-01-01'' = Rejected
   \<and> iso_reader (column_texts raw_rows) '''' = Missing
   \<and> \<not> (\<exists>e. preprocess iso_reader raw_rows = Inl e)
   \<and> preprocess iso_reader raw_rows =
       Inr [\<lparr>timestamp = Some 1735689600, kwh = Some 10, building = ''admin'', month = ''2025-01''\<rparr>,
            \<lparr>timestamp = Some 1735885800, kwh = Some 2, building = ''admin'', month = ''2025-01''\<rparr>,
            \<lparr>timestamp = None, kwh = Some 5, building = ''admin'', month = ''2025-01''\<rparr>,
            \<lparr>timestamp = None, kwh = Some 7, building = ''admin'', month = ''2025-01''\<rparr>]"
proof -
  have m: "list_ex (\<lambda>r. timestamp r = Some ''not a timestamp'') bad_timestamp_rows"
    and n: "iso_reader (column_texts bad_timestamp_rows) ''not a timestamp'' = Rejected"
    by code_simp+
  from m n have h: "\<exists>r\<in>set bad_timestamp_rows. \<exists>s. timestamp r = Some s
      \<and> iso_reader (column_texts bad_timestamp_rows) s = Rejected"
    by (auto simp: list_ex_iff)
  from unparseable_timestamp_raises [of iso_reader bad_timestamp_rows] h
  have 1: "\<exists>e. preprocess iso_reader bad_timestamp_rows = Inl e" by blast
  have m': "list_ex (\<lambda>r. timestamp r = Some ''2025-01-01'') mixed_format_rows"
    and n': "iso_reader (column_texts mixed_format_rows) ''2025-01-01'' = Rejected"
    by code_simp+
  from m' n' have h': "\<exists>r\<in>set mixed_format_rows. \<exists>s. timestamp r = Some s
      \<and> iso_reader (column_texts mixed_format_rows) s = Rejected"
    by (auto simp: list_ex_iff)
  from unparseable_timestamp_raises [of iso_reader mixed_format_rows] h'
  have 2: "\<exists>e. preprocess iso_reader mixed_format_rows = Inl e" by blast
  have e: "iso_reader (column_texts raw_rows) '''' = Missing" by code_simp
  have 3: "\<not> (\<exists>e. preprocess iso_reader raw_rows = Inl e)"
    by (simp add: preprocess_raw_rows)
  from 1 m n 2 m' n' e 3 preprocess_raw_rows show ?thesis by (intro conjI)
qed

text \<open>
  The claim as the spec words it fails on a row with the timestamp text
  \<open>not a timestamp\<close>: no missing value is put in its place, \<open>preprocess\<close> raises.
\<close>

theorem unparseable_timestamp_counterexample:
  "iso_reader (column_texts bad_timestamp_rows) ''not a timestamp'' = Rejected
   \<and> preprocess iso_reader bad_timestamp_rows = Inl (ValueError ''not a timestamp'')"
  by code_simp

section \<open>Weekly buckets\<close>

lemma day_of_label: "day_of (d * seconds_per_day) = d"
  by (simp add: day_of_def seconds_per_day_def)

lemma label_W_MON_next_monday:
  "weekday (label_W_MON t) = 0
   \<and> day_of t \<le> day_of (label_W_MON t) \<and> day_of (label_W_MON t) < day_of t + 7"
proof -
  have "(day_of t + (4 - day_of t) mod 7 + 3) mod 7 = ((day_of t + (4 - day_of t) mod 7) mod 7 + 3) mod 7"
    by (simp add: mod_add_left_eq)
  then have "(day_of t + (4 - day_of t) mod 7 + 3) mod 7 = 0"
    by (simp only: mod7_monday) simp
  moreover have "0 \<le> (4 - day_of t) mod 7" "(4 - day_of t) mod 7 < 7" by simp_all
  ultimately show ?thesis
    by (simp add: label_W_MON_eq weekday_def day_of_label)
qed

lemma sunday_label:
  assumes "weekday t = 6"
  shows "label_W_MON t = (day_of t + 1) * seconds_per_day"
  using assms by (simp add: label_W_MON_def)

text \<open>
  C2. The claim (a week bucket starts on a Monday and ends before the next one, so a
  Sunday belongs to the bucket of the Monday before) is what the comment of line 74
  says, and not what the rule \<open>W-MON\<close> does: the reading of Sunday 2025-01-05 is summed
  with the reading of Monday 2025-01-06 in the bucket labelled 2025-01-06, and the
  reading of Monday 2024-12-30 is in another bucket, labelled 2024-12-30.
\<close>

theorem sunday_reading_in_week_ending_monday:
  "iso_datetime ''2024-12-30'' = Some 1735516800 \<and> weekday 1735516800 = 0
   \<and> iso_datetime ''2025-01-05T12:00:00'' = Some 1736078400 \<and> weekday 1736078400 = 6
   \<and> iso_datetime ''2025-01-06T09:00:00'' = Some 1736154000 \<and> weekday 1736154000 = 0
   \<and> iso_datetime ''2025-01-06'' = Some 1736121600
   \<and> calculate_weekly_aggregates exact_library weekend_readings =
       Inr [(''admin'', 1735516800, 4), (''admin'', 1736121600, 3)]"
  by code_simp

end
